theory Spec2Isabelle
  imports Main "HOL-Library.Word"
begin

unbundle bit_operations_syntax

section \<open>The AVR processor state and the instructions used by the port\<close>

text \<open>
  The port layer (port.c) is mostly inline assembly.  It is embedded as instruction
  lists over a small model of the AVR core: the 32 general registers, the status
  register, the stack pointer, the program counter, the two extended-addressing
  I/O registers and the flat data memory.  Data addresses are 16 bits wide,
  registers and memory cells are bytes.
\<close>

type_synonym byte = "8 word"
type_synonym addr = "16 word"

record cpu =
  regs :: "nat \<Rightarrow> byte"
  sreg :: byte
  sp :: addr
  pc :: "24 word"
  rampz :: byte
  eind :: byte
  mem :: "addr \<Rightarrow> byte"

text \<open>
  The I/O registers the macros name: \<open>__SREG__\<close>, \<open>__SP_L__\<close>, \<open>__SP_H__\<close>, and the
  two addresses 0x3B (RAMPZ) and 0x3C (EIND) of the 3-byte-PC variants.
\<close>

datatype ioreg = SREG | SP_L | SP_H | IO_0x3B | IO_0x3C

datatype instr =
    PUSH nat
  | POP nat
  | IN nat ioreg
  | OUT ioreg nat
  | CLI
  | CLR nat
  | LDS nat addr
  | LD_Xinc nat
  | ST_Xinc nat
  | CALL "24 word"
  | RET
  | RETI

abbreviation (input) tmp_reg :: nat where "tmp_reg \<equiv> 0"
abbreviation (input) zero_reg :: nat where "zero_reg \<equiv> 1"

definition lo_byte :: "addr \<Rightarrow> byte" where
  "lo_byte w = ucast (w AND 0x00ff)"

definition hi_byte :: "addr \<Rightarrow> byte" where
  "hi_byte w = ucast (drop_bit 8 w AND 0x00ff)"

definition mk16 :: "byte \<Rightarrow> byte \<Rightarrow> addr" where
  "mk16 h l = push_bit 8 (ucast h) OR ucast l"

definition Xreg :: "cpu \<Rightarrow> addr" where
  "Xreg s = mk16 (regs s 27) (regs s 26)"

definition set_Xreg :: "addr \<Rightarrow> cpu \<Rightarrow> cpu" where
  "set_Xreg x s = s\<lparr>regs := (regs s)(26 := lo_byte x, 27 := hi_byte x)\<rparr>"

definition io_read :: "cpu \<Rightarrow> ioreg \<Rightarrow> byte" where
  "io_read s r = (case r of
      SREG \<Rightarrow> sreg s
    | SP_L \<Rightarrow> lo_byte (sp s)
    | SP_H \<Rightarrow> hi_byte (sp s)
    | IO_0x3B \<Rightarrow> rampz s
    | IO_0x3C \<Rightarrow> eind s)"

definition io_write :: "ioreg \<Rightarrow> byte \<Rightarrow> cpu \<Rightarrow> cpu" where
  "io_write r v s = (case r of
      SREG \<Rightarrow> s\<lparr>sreg := v\<rparr>
    | SP_L \<Rightarrow> s\<lparr>sp := mk16 (hi_byte (sp s)) v\<rparr>
    | SP_H \<Rightarrow> s\<lparr>sp := mk16 v (lo_byte (sp s))\<rparr>
    | IO_0x3B \<Rightarrow> s\<lparr>rampz := v\<rparr>
    | IO_0x3C \<Rightarrow> s\<lparr>eind := v\<rparr>)"

text \<open>The global interrupt enable flag is bit 7 of the status register.\<close>

definition sreg_I :: byte where
  "sreg_I = 0x80"

definition interrupts_enabled :: "cpu \<Rightarrow> bool" where
  "interrupts_enabled s = (sreg s AND sreg_I \<noteq> 0)"

text \<open>
  One instruction.  \<open>three_byte_pc\<close> tells whether the device stores return
  addresses in three bytes (\<open>__AVR_3_BYTE_PC__\<close>).  PUSH stores at the stack pointer
  and then decrements it; POP increments it and then loads.  CLR is an exclusive
  or of the register with itself: it clears S, V and N and sets Z.  A return
  address lies on the stack with its most significant byte at the lowest address.
  \<open>CALL k\<close> stands for a call whose return address is \<open>k\<close>: it pushes \<open>k\<close>, low
  byte first; the callee's instructions follow it in the list.
\<close>

definition exec_instr :: "bool \<Rightarrow> instr \<Rightarrow> cpu \<Rightarrow> cpu" where
  "exec_instr three_byte_pc i s = (case i of
      PUSH r \<Rightarrow> s\<lparr>mem := (mem s)(sp s := regs s r), sp := sp s - 1\<rparr>
    | POP r \<Rightarrow> s\<lparr>regs := (regs s)(r := mem s (sp s + 1)), sp := sp s + 1\<rparr>
    | IN r p \<Rightarrow> s\<lparr>regs := (regs s)(r := io_read s p)\<rparr>
    | OUT p r \<Rightarrow> io_write p (regs s r) s
    | CLI \<Rightarrow> s\<lparr>sreg := sreg s AND NOT sreg_I\<rparr>
    | CLR r \<Rightarrow> s\<lparr>regs := (regs s)(r := 0), sreg := (sreg s AND NOT 0x1C) OR 0x02\<rparr>
    | LDS r a \<Rightarrow> s\<lparr>regs := (regs s)(r := mem s a)\<rparr>
    | LD_Xinc r \<Rightarrow> set_Xreg (Xreg s + 1) (s\<lparr>regs := (regs s)(r := mem s (Xreg s))\<rparr>)
    | ST_Xinc r \<Rightarrow> set_Xreg (Xreg s + 1) (s\<lparr>mem := (mem s)(Xreg s := regs s r)\<rparr>)
    | CALL k \<Rightarrow>
        (if three_byte_pc
         then s\<lparr>mem := (mem s)(sp s := ucast k, sp s - 1 := ucast (drop_bit 8 k),
                                 sp s - 2 := ucast (drop_bit 16 k)),
                sp := sp s - 3\<rparr>
         else s\<lparr>mem := (mem s)(sp s := ucast k, sp s - 1 := ucast (drop_bit 8 k)),
                sp := sp s - 2\<rparr>)
    | RET \<Rightarrow>
        (if three_byte_pc
         then s\<lparr>pc := push_bit 16 (ucast (mem s (sp s + 1)))
                      OR push_bit 8 (ucast (mem s (sp s + 2)))
                      OR ucast (mem s (sp s + 3)),
                sp := sp s + 3\<rparr>
         else s\<lparr>pc := push_bit 8 (ucast (mem s (sp s + 1))) OR ucast (mem s (sp s + 2)),
                sp := sp s + 2\<rparr>)
    | RETI \<Rightarrow>
        (if three_byte_pc
         then s\<lparr>pc := push_bit 16 (ucast (mem s (sp s + 1)))
                      OR push_bit 8 (ucast (mem s (sp s + 2)))
                      OR ucast (mem s (sp s + 3)),
                sp := sp s + 3, sreg := sreg s OR sreg_I\<rparr>
         else s\<lparr>pc := push_bit 8 (ucast (mem s (sp s + 1))) OR ucast (mem s (sp s + 2)),
                sp := sp s + 2, sreg := sreg s OR sreg_I\<rparr>))"

fun exec :: "bool \<Rightarrow> instr list \<Rightarrow> cpu \<Rightarrow> cpu" where
  "exec t [] s = s"
| "exec t (i # is) s = exec t is (exec_instr t i s)"

section \<open>The context save and restore macros\<close>

text \<open>
  The two macros, instruction by instruction.  \<open>pxCurrentTCB\<close> is the data address
  of the kernel's variable of that name, a two-byte pointer to the control block
  of the running task; the macros address it and the byte after it with \<open>lds\<close>.
\<close>

definition portSAVE_CONTEXT :: "bool \<Rightarrow> addr \<Rightarrow> instr list" where
  "portSAVE_CONTEXT three_byte_pc pxCurrentTCB =
    (if three_byte_pc then
      [ PUSH tmp_reg,
        IN tmp_reg SREG,
        CLI,
        PUSH tmp_reg,
        IN tmp_reg IO_0x3B,
        PUSH tmp_reg,
        IN tmp_reg IO_0x3C,
        PUSH tmp_reg,
        PUSH zero_reg,
        CLR zero_reg,
        PUSH 2, PUSH 3, PUSH 4, PUSH 5, PUSH 6, PUSH 7, PUSH 8, PUSH 9,
        PUSH 10, PUSH 11, PUSH 12, PUSH 13, PUSH 14, PUSH 15, PUSH 16, PUSH 17,
        PUSH 18, PUSH 19, PUSH 20, PUSH 21, PUSH 22, PUSH 23, PUSH 24, PUSH 25,
        PUSH 26, PUSH 27, PUSH 28, PUSH 29, PUSH 30, PUSH 31,
        LDS 26 pxCurrentTCB,
        LDS 27 (pxCurrentTCB + 1),
        IN tmp_reg SP_L,
        ST_Xinc tmp_reg,
        IN tmp_reg SP_H,
        ST_Xinc tmp_reg ]
     else
      [ PUSH tmp_reg,
        IN tmp_reg SREG,
        CLI,
        PUSH tmp_reg,
        PUSH zero_reg,
        CLR zero_reg,
        PUSH 2, PUSH 3, PUSH 4, PUSH 5, PUSH 6, PUSH 7, PUSH 8, PUSH 9,
        PUSH 10, PUSH 11, PUSH 12, PUSH 13, PUSH 14, PUSH 15, PUSH 16, PUSH 17,
        PUSH 18, PUSH 19, PUSH 20, PUSH 21, PUSH 22, PUSH 23, PUSH 24, PUSH 25,
        PUSH 26, PUSH 27, PUSH 28, PUSH 29, PUSH 30, PUSH 31,
        LDS 26 pxCurrentTCB,
        LDS 27 (pxCurrentTCB + 1),
        IN tmp_reg SP_L,
        ST_Xinc tmp_reg,
        IN tmp_reg SP_H,
        ST_Xinc tmp_reg ])"

definition portRESTORE_CONTEXT :: "bool \<Rightarrow> addr \<Rightarrow> instr list" where
  "portRESTORE_CONTEXT three_byte_pc pxCurrentTCB =
    (if three_byte_pc then
      [ LDS 26 pxCurrentTCB,
        LDS 27 (pxCurrentTCB + 1),
        LD_Xinc 28,
        OUT SP_L 28,
        LD_Xinc 29,
        OUT SP_H 29,
        POP 31, POP 30, POP 29, POP 28, POP 27, POP 26, POP 25, POP 24,
        POP 23, POP 22, POP 21, POP 20, POP 19, POP 18, POP 17, POP 16,
        POP 15, POP 14, POP 13, POP 12, POP 11, POP 10, POP 9, POP 8,
        POP 7, POP 6, POP 5, POP 4, POP 3, POP 2,
        POP zero_reg,
        POP tmp_reg,
        OUT IO_0x3C tmp_reg,
        POP tmp_reg,
        OUT IO_0x3B tmp_reg,
        POP tmp_reg,
        OUT SREG tmp_reg,
        POP tmp_reg ]
     else
      [ LDS 26 pxCurrentTCB,
        LDS 27 (pxCurrentTCB + 1),
        LD_Xinc 28,
        OUT SP_L 28,
        LD_Xinc 29,
        OUT SP_H 29,
        POP 31, POP 30, POP 29, POP 28, POP 27, POP 26, POP 25, POP 24,
        POP 23, POP 22, POP 21, POP 20, POP 19, POP 18, POP 17, POP 16,
        POP 15, POP 14, POP 13, POP 12, POP 11, POP 10, POP 9, POP 8,
        POP 7, POP 6, POP 5, POP 4, POP 3, POP 2,
        POP zero_reg,
        POP tmp_reg,
        OUT SREG tmp_reg,
        POP tmp_reg ])"

section \<open>pxPortInitialiseStack\<close>

definition portFLAGS_INT_ENABLED :: byte where
  "portFLAGS_INT_ENABLED = 0x80"

text \<open>
  Every statement pair \<open>*pxTopOfStack = v; pxTopOfStack--;\<close> of the function stores
  one byte and moves the pointer down by one (\<open>StackType_t\<close> is a byte).
  \<open>store_down\<close> does this for a list of bytes, first element first.
\<close>

fun store_down :: "(addr \<Rightarrow> byte) \<Rightarrow> addr \<Rightarrow> byte list \<Rightarrow> addr \<times> (addr \<Rightarrow> byte)" where
  "store_down m p [] = (p, m)"
| "store_down m p (v # vs) = store_down (m(p := v)) (p - 1) vs"

text \<open>
  The function returns the new top of stack; the model returns the memory it has
  written as well.  Code and data pointers are 16 bits wide.
\<close>

definition pxPortInitialiseStack ::
    "bool \<Rightarrow> (addr \<Rightarrow> byte) \<Rightarrow> addr \<Rightarrow> addr \<Rightarrow> addr \<Rightarrow> addr \<times> (addr \<Rightarrow> byte)" where
  "pxPortInitialiseStack three_byte_pc m pxTopOfStack pxCode pvParameters =
     store_down m pxTopOfStack
       ([ 0x11, 0x22, 0x33 ]
        @ (if three_byte_pc
           then [ ucast (pxCode AND 0x00ff), ucast (drop_bit 8 pxCode AND 0x00ff), 0 ]
           else [ ucast (pxCode AND 0x00ff), ucast (drop_bit 8 pxCode AND 0x00ff) ])
        @ [ 0x00, portFLAGS_INT_ENABLED ]
        @ (if three_byte_pc then [ 0x00, 0x00 ] else [])
        @ [ 0x00,
            0x02, 0x03, 0x04, 0x05, 0x06, 0x07, 0x08, 0x09,
            0x10, 0x11, 0x12, 0x13, 0x14, 0x15, 0x16, 0x17, 0x18, 0x19,
            0x20, 0x21, 0x22, 0x23,
            ucast (pvParameters AND 0x00ff), ucast (drop_bit 8 pvParameters AND 0x00ff),
            0x26, 0x27, 0x28, 0x29, 0x30, 0x31 ])"

section \<open>The tick source, the kernel interface and the entry points\<close>

text \<open>
  The C part of the port works on the processor, on the peripheral registers of
  the watchdog and of Timer0, and on the two variables \<open>portTickRateHz\<close> and
  \<open>ticksRemainingInSec\<close>.  \<open>TickType_t\<close> values are kept in 32 bits; a build with
  16-bit ticks truncates them on assignment (\<open>to_TickType_t\<close>).  The list
  \<open>wd_control_writes\<close> records every value written to the watchdog control
  register, in order, and \<open>kernel_calls\<close> records the calls made into the kernel.
\<close>

datatype kernel_call = Call_xTaskIncrementTick | Call_vTaskSwitchContext

record port_state =
  core :: cpu
  portTickRateHz :: "32 word"
  ticksRemainingInSec :: "32 word"
  WD_CONTROL_REG :: byte
  wd_control_writes :: "byte list"
  wd_timer_resets :: nat
  OCR0A :: byte
  TCCR0A :: byte
  TCCR0B :: byte
  TIMSK0 :: byte
  kernel_calls :: "kernel_call list"

text \<open>The build-time configuration read by the port.\<close>

record port_config =
  configCPU_CLOCK_HZ :: "32 word"
  configTICK_RATE_HZ :: "32 word"
  configUSE_16_BIT_TICKS :: bool
  configUSE_PREEMPTION :: int
  three_byte_pc :: bool
  pxCurrentTCB :: addr

datatype tick_source = portUSE_WDTO byte | portUSE_TIMER0

definition to_TickType_t :: "bool \<Rightarrow> 32 word \<Rightarrow> 32 word" where
  "to_TickType_t use_16_bit_ticks x = (if use_16_bit_ticks then x AND 0xFFFF else x)"

definition on_core :: "(cpu \<Rightarrow> cpu) \<Rightarrow> port_state \<Rightarrow> port_state" where
  "on_core f s = s\<lparr>core := f (core s)\<rparr>"

text \<open>
  Bit numbers of the device header for the watchdog control register and for
  Timer0: WDIF 7, WDIE 6, WDP3 5, WDCE 4 (\<open>_WD_CHANGE_BIT\<close>), WDE 3; WGM01 1, CS02 2,
  CS00 0, OCIE0A 1.
\<close>

definition BV :: "nat \<Rightarrow> byte" where
  "BV n = push_bit n 1"

definition WDIF :: nat where "WDIF = 7"
definition WDIE :: nat where "WDIE = 6"
definition WDP3 :: nat where "WDP3 = 5"
definition WD_CHANGE_BIT :: nat where "WD_CHANGE_BIT = 4"
definition WDE :: nat where "WDE = 3"
definition WD_PS3_MASK :: byte where "WD_PS3_MASK = BV WDP3"

definition WGM01 :: nat where "WGM01 = 1"
definition CS02 :: nat where "CS02 = 2"
definition CS00 :: nat where "CS00 = 0"
definition OCIE0A :: nat where "OCIE0A = 1"

definition portCLEAR_COUNTER_ON_MATCH :: byte where
  "portCLEAR_COUNTER_ON_MATCH = BV WGM01"

definition portPRESCALE_1024 :: byte where
  "portPRESCALE_1024 = BV CS02 OR BV CS00"

definition portCLOCK_PRESCALER :: "32 word" where
  "portCLOCK_PRESCALER = 1024"

definition portCOMPARE_MATCH_A_INTERRUPT_ENABLE :: byte where
  "portCOMPARE_MATCH_A_INTERRUPT_ENABLE = BV OCIE0A"

definition write_WD_CONTROL_REG :: "byte \<Rightarrow> port_state \<Rightarrow> port_state" where
  "write_WD_CONTROL_REG v s =
     s\<lparr>WD_CONTROL_REG := v, wd_control_writes := wd_control_writes s @ [v]\<rparr>"

definition wdr :: "port_state \<Rightarrow> port_state" where
  "wdr s = s\<lparr>wd_timer_resets := Suc (wd_timer_resets s)\<rparr>"

text \<open>
  \<open>wdt_interrupt_enable\<close>: both branches of the function (\<open>out\<close> or \<open>sts\<close> to the
  control register) run the same six steps.
\<close>

definition wdt_interrupt_enable :: "bool \<Rightarrow> byte \<Rightarrow> port_state \<Rightarrow> port_state" where
  "wdt_interrupt_enable t val s =
     (let s1 = on_core (exec t [IN tmp_reg SREG, CLI]) s;
          s2 = wdr s1;
          s3 = write_WD_CONTROL_REG (BV WD_CHANGE_BIT OR BV WDE) s2;
          s4 = on_core (exec t [OUT SREG tmp_reg]) s3
      in write_WD_CONTROL_REG
           ((if val AND 0x08 \<noteq> 0 then WD_PS3_MASK else 0x00)
            OR BV WDIF OR BV WDIE OR (val AND 0x07)) s4)"

definition wdt_interrupt_reset_enable :: "bool \<Rightarrow> byte \<Rightarrow> port_state \<Rightarrow> port_state" where
  "wdt_interrupt_reset_enable t val s =
     (let s1 = on_core (exec t [IN tmp_reg SREG, CLI]) s;
          s2 = wdr s1;
          s3 = write_WD_CONTROL_REG (BV WD_CHANGE_BIT OR BV WDE) s2;
          s4 = on_core (exec t [OUT SREG tmp_reg]) s3
      in write_WD_CONTROL_REG
           ((if val AND 0x08 \<noteq> 0 then WD_PS3_MASK else 0x00)
            OR BV WDIF OR BV WDIE OR BV WDE OR (val AND 0x07)) s4)"

text \<open>
  \<open>prvSetupTimerInterrupt\<close>, in its two variants.  The Timer0 variant divides twice
  by values that may be zero; a division by zero has no result (\<open>None\<close>).
\<close>

definition prvSetupTimerInterrupt_WDTO ::
    "port_config \<Rightarrow> byte \<Rightarrow> port_state \<Rightarrow> port_state" where
  "prvSetupTimerInterrupt_WDTO cfg wdto s =
     (let s1 = wdr s;
          s2 = s1\<lparr>portTickRateHz :=
                    to_TickType_t (configUSE_16_BIT_TICKS cfg) (configTICK_RATE_HZ cfg)\<rparr>;
          s3 = s2\<lparr>ticksRemainingInSec := portTickRateHz s2\<rparr>
      in wdt_interrupt_enable (three_byte_pc cfg) wdto s3)"

definition prvSetupTimerInterrupt_TIMER0 :: "port_config \<Rightarrow> port_state \<Rightarrow> port_state option" where
  "prvSetupTimerInterrupt_TIMER0 cfg s =
     (if configTICK_RATE_HZ cfg = 0 then None
      else
        let ulCompareMatch = configCPU_CLOCK_HZ cfg div configTICK_RATE_HZ cfg;
            ulCompareMatch = ulCompareMatch div portCLOCK_PRESCALER
        in if portCLOCK_PRESCALER * ulCompareMatch = 0 then None
           else
             let s1 = s\<lparr>portTickRateHz :=
                          to_TickType_t (configUSE_16_BIT_TICKS cfg)
                            (configCPU_CLOCK_HZ cfg div (portCLOCK_PRESCALER * ulCompareMatch))\<rparr>;
                 s2 = s1\<lparr>ticksRemainingInSec := portTickRateHz s1\<rparr>;
                 ulCompareMatch = ulCompareMatch - 1;
                 ucLowByte = (ucast (ulCompareMatch AND 0xff) :: byte);
                 s3 = s2\<lparr>OCR0A := ucLowByte\<rparr>;
                 s4 = s3\<lparr>TCCR0A := portCLEAR_COUNTER_ON_MATCH\<rparr>;
                 s5 = s4\<lparr>TCCR0B := portPRESCALE_1024\<rparr>;
                 ucLowByte = TIMSK0 s5;
                 ucLowByte = ucLowByte OR portCOMPARE_MATCH_A_INTERRUPT_ENABLE
             in Some (s5\<lparr>TIMSK0 := ucLowByte\<rparr>))"

definition prvSetupTimerInterrupt ::
    "tick_source \<Rightarrow> port_config \<Rightarrow> port_state \<Rightarrow> port_state option" where
  "prvSetupTimerInterrupt src cfg s = (case src of
      portUSE_WDTO wdto \<Rightarrow> Some (prvSetupTimerInterrupt_WDTO cfg wdto s)
    | portUSE_TIMER0 \<Rightarrow> prvSetupTimerInterrupt_TIMER0 cfg s)"

text \<open>
  The two kernel functions the port calls are parameters: \<open>xTaskIncrementTick\<close>
  returns a \<open>BaseType_t\<close>, \<open>vTaskSwitchContext\<close> returns nothing.  The wrappers
  record the call; the callee cannot change the record of calls.
\<close>

definition pdFALSE :: byte where
  "pdFALSE = 0"

definition call_xTaskIncrementTick ::
    "(port_state \<Rightarrow> byte \<times> port_state) \<Rightarrow> port_state \<Rightarrow> byte \<times> port_state" where
  "call_xTaskIncrementTick xTaskIncrementTick s =
     (fst (xTaskIncrementTick s),
      (snd (xTaskIncrementTick s))\<lparr>kernel_calls := kernel_calls s @ [Call_xTaskIncrementTick]\<rparr>)"

definition call_vTaskSwitchContext ::
    "(port_state \<Rightarrow> port_state) \<Rightarrow> port_state \<Rightarrow> port_state" where
  "call_vTaskSwitchContext vTaskSwitchContext s =
     (vTaskSwitchContext s)\<lparr>kernel_calls := kernel_calls s @ [Call_vTaskSwitchContext]\<rparr>"


definition vPortYield ::
    "port_config \<Rightarrow> (port_state \<Rightarrow> port_state) \<Rightarrow> port_state \<Rightarrow> port_state" where
  "vPortYield cfg vTaskSwitchContext s =
     (let t = three_byte_pc cfg;
          s1 = on_core (exec t (portSAVE_CONTEXT t (pxCurrentTCB cfg))) s;
          s2 = call_vTaskSwitchContext vTaskSwitchContext s1;
          s3 = on_core (exec t (portRESTORE_CONTEXT t (pxCurrentTCB cfg))) s2
      in on_core (exec t [RET]) s3)"

definition vPortYieldFromTick ::
    "port_config \<Rightarrow> (port_state \<Rightarrow> byte \<times> port_state) \<Rightarrow> (port_state \<Rightarrow> port_state)
       \<Rightarrow> port_state \<Rightarrow> port_state" where
  "vPortYieldFromTick cfg xTaskIncrementTick vTaskSwitchContext s =
     (let t = three_byte_pc cfg;
          s1 = on_core (exec t (portSAVE_CONTEXT t (pxCurrentTCB cfg))) s;
          r = call_xTaskIncrementTick xTaskIncrementTick s1;
          s2 = (if fst r \<noteq> pdFALSE
                then call_vTaskSwitchContext vTaskSwitchContext (snd r)
                else snd r);
          s3 = on_core (exec t (portRESTORE_CONTEXT t (pxCurrentTCB cfg))) s2
      in on_core (exec t [RET]) s3)"

text \<open>
  The tick interrupt routine.  With \<open>configUSE_PREEMPTION == 1\<close> it is naked: it
  calls \<open>vPortYieldFromTick\<close> (\<open>isr_ret\<close> is the return address of that call) and
  ends with \<open>reti\<close>.  Otherwise it only calls \<open>xTaskIncrementTick\<close> and drops the
  result; its compiler-generated entry and exit code is left out, up to the
  closing \<open>reti\<close>.
\<close>

definition portSCHEDULER_ISR ::
    "port_config \<Rightarrow> 24 word \<Rightarrow> (port_state \<Rightarrow> byte \<times> port_state)
       \<Rightarrow> (port_state \<Rightarrow> port_state) \<Rightarrow> port_state \<Rightarrow> port_state" where
  "portSCHEDULER_ISR cfg isr_ret xTaskIncrementTick vTaskSwitchContext s =
     (if configUSE_PREEMPTION cfg = 1
      then on_core (exec (three_byte_pc cfg) [RETI])
             (vPortYieldFromTick cfg xTaskIncrementTick vTaskSwitchContext
               (on_core (exec (three_byte_pc cfg) [CALL isr_ret]) s))
      else on_core (exec (three_byte_pc cfg) [RETI])
             (snd (call_xTaskIncrementTick xTaskIncrementTick s)))"

section \<open>Notions used to state the properties\<close>

text \<open>
  The control block the macros address: the two bytes at \<open>pxCurrentTCB\<close>, low byte
  first, form a pointer \<open>t\<close>; the two bytes at \<open>t\<close>, low byte first, are the stack
  pointer stored in the control block.
\<close>

definition current_tcb :: "addr \<Rightarrow> (addr \<Rightarrow> byte) \<Rightarrow> addr" where
  "current_tcb a m = mk16 (m (a + 1)) (m a)"

definition saved_sp :: "addr \<Rightarrow> (addr \<Rightarrow> byte) \<Rightarrow> addr" where
  "saved_sp a m = current_tcb (current_tcb a m) m"

text \<open>
  The context of a running task in the order the save macro pushes it: R0, the
  status register, on 3-byte-PC devices the I/O registers 0x3B and 0x3C, then R1 to
  R31.
\<close>

definition context_fields :: "bool \<Rightarrow> cpu \<Rightarrow> byte list" where
  "context_fields t s =
     [regs s 0, sreg s] @ (if t then [rampz s, eind s] else []) @ map (regs s) [1..<32]"

definition frame_size :: "bool \<Rightarrow> nat" where
  "frame_size t = (if t then 35 else 33)"

definition pc_bytes :: "bool \<Rightarrow> nat" where
  "pc_bytes t = (if t then 3 else 2)"

definition pushed_mem :: "bool \<Rightarrow> cpu \<Rightarrow> addr \<Rightarrow> byte" where
  "pushed_mem t s = snd (store_down (mem s) (sp s) (context_fields t s))"

text \<open>
  \<open>in_frame p0 n x\<close>: the address \<open>x\<close> is one of the \<open>n\<close> bytes at \<open>p0\<close> and below.
  \<open>read_down m p0 n\<close> reads these bytes, highest address first.
\<close>

definition in_frame :: "addr \<Rightarrow> nat \<Rightarrow> addr \<Rightarrow> bool" where
  "in_frame p0 n x = (unat (p0 - x) < n)"

definition read_down :: "(addr \<Rightarrow> byte) \<Rightarrow> addr \<Rightarrow> nat \<Rightarrow> byte list" where
  "read_down m p0 n = map (\<lambda>k. m (p0 - of_nat k)) [0..<n]"

text \<open>
  The memory layout a context save relies on: the bytes the save is about to push
  contain neither the variable \<open>pxCurrentTCB\<close> nor the stack-pointer field of the
  control block it points to, and that field does not overlap the variable.
\<close>

definition save_layout_ok :: "bool \<Rightarrow> addr \<Rightarrow> cpu \<Rightarrow> bool" where
  "save_layout_ok t a s =
     (let tcb = current_tcb a (mem s); n = frame_size t
      in \<not> in_frame (sp s) n a \<and> \<not> in_frame (sp s) n (a + 1)
         \<and> \<not> in_frame (sp s) n tcb \<and> \<not> in_frame (sp s) n (tcb + 1)
         \<and> tcb \<noteq> a \<and> tcb \<noteq> a + 1 \<and> tcb + 1 \<noteq> a)"

text \<open>
  The two halves of a context switch on the port state: the state after the save
  macro, and the state after the restore macro and the \<open>ret\<close> that follows it.
\<close>

definition context_saved :: "port_config \<Rightarrow> port_state \<Rightarrow> port_state" where
  "context_saved cfg s =
     on_core (exec (three_byte_pc cfg)
                (portSAVE_CONTEXT (three_byte_pc cfg) (pxCurrentTCB cfg))) s"

definition context_restored :: "port_config \<Rightarrow> port_state \<Rightarrow> port_state" where
  "context_restored cfg s =
     on_core (exec (three_byte_pc cfg) [RET])
       (on_core (exec (three_byte_pc cfg)
                  (portRESTORE_CONTEXT (three_byte_pc cfg) (pxCurrentTCB cfg))) s)"

text \<open>
  The register values pxPortInitialiseStack prepares for a new task, by register
  number, as the function labels them (R0 and R1 zero, R2 to R23 and R26 to R31 the
  marker values, R24 and R25 the two bytes of the parameter).
\<close>

definition initial_regs :: "addr \<Rightarrow> nat \<Rightarrow> byte" where
  "initial_regs pvParameters r =
     (if r < 32
      then [ 0x00, 0x00, 0x02, 0x03, 0x04, 0x05, 0x06, 0x07, 0x08, 0x09,
             0x10, 0x11, 0x12, 0x13, 0x14, 0x15, 0x16, 0x17, 0x18, 0x19,
             0x20, 0x21, 0x22, 0x23,
             ucast (pvParameters AND 0x00ff), ucast (drop_bit 8 pvParameters AND 0x00ff),
             0x26, 0x27, 0x28, 0x29, 0x30, 0x31 ] ! r
      else 0)"

text \<open>The instructions that can set the global interrupt enable flag.\<close>

definition writes_I_flag :: "instr \<Rightarrow> bool" where
  "writes_I_flag i = (case i of OUT p r \<Rightarrow> p = SREG | RETI \<Rightarrow> True | _ \<Rightarrow> False)"

text \<open>
  The compare quotient of the Timer0 set-up: clock frequency by tick rate by
  prescaler, as the function computes it before the adjustment by one.
\<close>

definition compare_quotient :: "port_config \<Rightarrow> 32 word" where
  "compare_quotient cfg = configCPU_CLOCK_HZ cfg div configTICK_RATE_HZ cfg div portCLOCK_PRESCALER"


subsection \<open>Concrete states and configurations\<close>

text \<open>
  A device with \<open>pxCurrentTCB\<close> at address 0x0100, pointing to a control block at
  0x0200, and a stack that starts at 0x08FF; a 16 MHz clock.
\<close>

definition example_cpu :: cpu where
  "example_cpu =
     \<lparr>regs = (\<lambda>r. of_nat r), sreg = 0x80, sp = 0x08FF, pc = 0, rampz = 0, eind = 0,
      mem = (\<lambda>_. 0)(0x0100 := 0x00, 0x0101 := 0x02)\<rparr>"

definition example_new_task :: cpu where
  "example_new_task =
     \<lparr>regs = (\<lambda>r. 0), sreg = 0, sp = 0, pc = 0, rampz = 0, eind = 0,
      mem = snd (pxPortInitialiseStack False
                  ((\<lambda>_. 0)(0x0100 := 0x00, 0x0101 := 0x02, 0x0200 := 0xD9, 0x0201 := 0x08))
                  0x08FF 0x1234 0xABCD)\<rparr>"

definition example_fresh_cpu :: cpu where
  "example_fresh_cpu =
     \<lparr>regs = initial_regs 0xABCD, sreg = portFLAGS_INT_ENABLED, sp = 0x08FA, pc = 0x1234,
      rampz = 0, eind = 0, mem = (\<lambda>_. 0)(0x0100 := 0x00, 0x0101 := 0x02)\<rparr>"

definition example_config :: "32 word \<Rightarrow> port_config" where
  "example_config rate =
     \<lparr>configCPU_CLOCK_HZ = 16000000, configTICK_RATE_HZ = rate, configUSE_16_BIT_TICKS = True,
      configUSE_PREEMPTION = 1, three_byte_pc = False, pxCurrentTCB = 0x0100\<rparr>"

definition example_port :: port_state where
  "example_port =
     \<lparr>core = example_cpu, portTickRateHz = 0, ticksRemainingInSec = 0, WD_CONTROL_REG = 0,
      wd_control_writes = [], wd_timer_resets = 0, OCR0A = 0, TCCR0A = 0, TCCR0B = 0, TIMSK0 = 0,
      kernel_calls = []\<rparr>"

definition example_tick_due :: "port_state \<Rightarrow> byte \<times> port_state" where
  "example_tick_due s = (1, s)"

definition example_tick_not_due :: "port_state \<Rightarrow> byte \<times> port_state" where
  "example_tick_not_due s = (0, s)"

text \<open>
  A context switch to a second task: \<open>pxCurrentTCB\<close> is pointed at a control block
  at 0x0300 whose saved stack pointer is 0x0700.
\<close>

definition example_switch :: "port_state \<Rightarrow> port_state" where
  "example_switch s =
     on_core (\<lambda>c. c\<lparr>mem := (mem c)(0x0100 := 0x00, 0x0101 := 0x03,
                                     0x0300 := 0x00, 0x0301 := 0x07)\<rparr>) s"

section \<open>Auxiliary facts\<close>

lemma ff_mask: "(0xff :: 16 word) = mask 8"
  by (simp add: mask_eq_exp_minus_1)

lemma lo_byte_ucast: "lo_byte w = ucast w"
  unfolding lo_byte_def ff_mask
  by (rule bit_eqI) (auto simp add: bit_simps)

lemma hi_byte_ucast: "hi_byte w = ucast (drop_bit 8 w)"
  unfolding hi_byte_def ff_mask
  by (rule bit_eqI) (auto simp add: bit_simps)

lemma mk16_bytes: "mk16 (hi_byte w) (lo_byte w) = w"
  unfolding mk16_def hi_byte_ucast lo_byte_ucast
  by (rule bit_eqI) (auto simp add: bit_simps)

lemma lo_mk16: "lo_byte (mk16 h l) = l"
  unfolding mk16_def lo_byte_ucast
  by (rule bit_eqI) (auto simp add: bit_simps dest: bit_imp_le_length)

lemma hi_mk16: "hi_byte (mk16 h l) = h"
  unfolding mk16_def hi_byte_ucast
  by (rule bit_eqI) (auto simp add: bit_simps dest: bit_imp_le_length)

lemmas ex_simps = exec_instr_def io_read_def io_write_def Xreg_def set_Xreg_def mk16_bytes lo_mk16 hi_mk16

lemma exec_append: "exec t (xs @ ys) s = exec t ys (exec t xs s)"
  by (induction xs arbitrary: s) simp_all

lemma store_down_append:
  "store_down m p (xs @ ys) = store_down (snd (store_down m p xs)) (fst (store_down m p xs)) ys"
  by (induction xs arbitrary: m p) simp_all

lemma fst_store_down: "fst (store_down m p vs) = p - of_nat (length vs)"
  by (induction vs arbitrary: m p) simp_all

lemma exec_pushes:
  "exec t (map PUSH rs) s =
     s\<lparr>mem := snd (store_down (mem s) (sp s) (map (regs s) rs)),
        sp := fst (store_down (mem s) (sp s) (map (regs s) rs))\<rparr>"
  by (induction rs arbitrary: s) (simp_all add: exec_instr_def)

lemma unat_pred_diff:
  fixes p x :: addr
  assumes "x \<noteq> p"
  shows "unat (p - 1 - x) = unat (p - x) - 1"
proof -
  have "p - x \<noteq> 0" using assms by simp
  then have "unat (p - x - 1) = unat (p - x) - 1" by (rule unat_minus_one)
  moreover have "p - 1 - x = p - x - 1" by (simp add: algebra_simps)
  ultimately show ?thesis by (simp only:)
qed

lemma snd_store_down:
  "length vs \<le> 65536 \<Longrightarrow>
   snd (store_down m p vs) x = (if unat (p - x) < length vs then vs ! unat (p - x) else m x)"
proof (induction vs arbitrary: m p)
  case Nil
  then show ?case by simp
next
  case (Cons v vs)
  show ?case
  proof (cases "x = p")
    case True
    have "unat (p - 1 - p) = 65535" by (simp add: unsigned_minus_1_eq_mask mask_eq_exp_minus_1)
    with Cons True show ?thesis by simp
  next
    case False
    then have "unat (p - x) \<noteq> 0" by (simp add: unat_eq_0)
    with Cons False show ?thesis
      by (auto simp add: unat_pred_diff nth_Cons')
  qed
qed

lemma save_split2:
  "portSAVE_CONTEXT False a =
     [PUSH 0, IN 0 SREG, CLI, PUSH 0, PUSH 1, CLR 1] @ map PUSH [2..<32]
     @ [LDS 26 a, LDS 27 (a + 1), IN 0 SP_L, ST_Xinc 0, IN 0 SP_H, ST_Xinc 0]"
  by (simp add: portSAVE_CONTEXT_def)

lemma save_split3:
  "portSAVE_CONTEXT True a =
     [PUSH 0, IN 0 SREG, CLI, PUSH 0, IN 0 IO_0x3B, PUSH 0, IN 0 IO_0x3C, PUSH 0, PUSH 1, CLR 1]
     @ map PUSH [2..<32]
     @ [LDS 26 a, LDS 27 (a + 1), IN 0 SP_L, ST_Xinc 0, IN 0 SP_H, ST_Xinc 0]"
  by (simp add: portSAVE_CONTEXT_def)

lemma save_prefix2:
  "exec False [PUSH 0, IN 0 SREG, CLI, PUSH 0, PUSH 1, CLR 1] s =
     s\<lparr>regs := (regs s)(0 := sreg s, 1 := 0),
        sreg := ((sreg s AND NOT sreg_I) AND NOT 0x1C) OR 0x02,
        sp := sp s - 3,
        mem := (mem s)(sp s := regs s 0, sp s - 1 := sreg s, sp s - 2 := regs s 1)\<rparr>"
  by (intro cpu.equality) (simp_all add: ex_simps)

lemma save_prefix3:
  "exec True [PUSH 0, IN 0 SREG, CLI, PUSH 0, IN 0 IO_0x3B, PUSH 0, IN 0 IO_0x3C, PUSH 0, PUSH 1, CLR 1] s =
     s\<lparr>regs := (regs s)(0 := eind s, 1 := 0),
        sreg := ((sreg s AND NOT sreg_I) AND NOT 0x1C) OR 0x02,
        sp := sp s - 5,
        mem := (mem s)(sp s := regs s 0, sp s - 1 := sreg s, sp s - 2 := rampz s,
                       sp s - 3 := eind s, sp s - 4 := regs s 1)\<rparr>"
  by (intro cpu.equality) (simp_all add: ex_simps)

lemma save_suffix:
  "exec v [LDS 26 a, LDS 27 (a + 1), IN 0 SP_L, ST_Xinc 0, IN 0 SP_H, ST_Xinc 0] u =
     u\<lparr>regs := (regs u)(0 := hi_byte (sp u),
                         26 := lo_byte (current_tcb a (mem u) + 2),
                         27 := hi_byte (current_tcb a (mem u) + 2)),
        mem := (mem u)(current_tcb a (mem u) := lo_byte (sp u),
                       current_tcb a (mem u) + 1 := hi_byte (sp u))\<rparr>"
  by (intro cpu.equality) (simp_all add: ex_simps current_tcb_def fun_eq_iff add.commute)

lemma length_context_fields: "length (context_fields v s) = frame_size v"
  by (simp add: context_fields_def frame_size_def)

lemma upt_1_32: "[Suc 0..<32] = Suc 0 # [2..<32]"
proof -
  have "[Suc 0..<32] = Suc 0 # [Suc (Suc 0)..<32]" by (rule upt_conv_Cons) simp
  moreover have "Suc (Suc 0) = 2" by simp
  ultimately show ?thesis by (simp only:)
qed

lemma context_fields2:
  "context_fields False s = regs s 0 # sreg s # regs s (Suc 0) # map (regs s) [2..<32]"
  unfolding context_fields_def One_nat_def upt_1_32 by simp

lemma context_fields3:
  "context_fields True s =
     regs s 0 # sreg s # rampz s # eind s # regs s (Suc 0) # map (regs s) [2..<32]"
  unfolding context_fields_def One_nat_def upt_1_32 by simp

lemma map_regs_high: "map (f(0 := x, Suc 0 := y)) [2..<32] = map f [2..<32]"
  by (rule map_cong) auto

lemma store_down_3:
  "store_down (m(p := v0, p - 1 := v1, p - 2 := v2)) (p - 3) vs = store_down m p (v0 # v1 # v2 # vs)"
  by simp

lemma store_down_5:
  "store_down (m(p := v0, p - 1 := v1, p - 2 := v2, p - 3 := v3, p - 4 := v4)) (p - 5) vs
     = store_down m p (v0 # v1 # v2 # v3 # v4 # vs)"
  by simp

lemma save_pushes2:
  "exec False ([PUSH 0, IN 0 SREG, CLI, PUSH 0, PUSH 1, CLR 1] @ map PUSH [2..<32]) s =
     s\<lparr>regs := (regs s)(0 := sreg s, 1 := 0),
        sreg := ((sreg s AND NOT sreg_I) AND NOT 0x1C) OR 0x02,
        sp := sp s - 33,
        mem := pushed_mem False s\<rparr>"
  unfolding exec_append save_prefix2 exec_pushes pushed_mem_def context_fields2
  by (intro cpu.equality)
     (simp_all add: map_regs_high store_down_3 fst_store_down del: upt_rec_numeral store_down.simps)

lemma save_pushes3:
  "exec True ([PUSH 0, IN 0 SREG, CLI, PUSH 0, IN 0 IO_0x3B, PUSH 0, IN 0 IO_0x3C, PUSH 0,
               PUSH 1, CLR 1] @ map PUSH [2..<32]) s =
     s\<lparr>regs := (regs s)(0 := eind s, 1 := 0),
        sreg := ((sreg s AND NOT sreg_I) AND NOT 0x1C) OR 0x02,
        sp := sp s - 35,
        mem := pushed_mem True s\<rparr>"
  unfolding exec_append save_prefix3 exec_pushes pushed_mem_def context_fields3
  by (intro cpu.equality)
     (simp_all add: map_regs_high store_down_5 fst_store_down del: upt_rec_numeral store_down.simps)

lemma save_effect:
  "exec v (portSAVE_CONTEXT v a) s =
     s\<lparr>regs := (regs s)(0 := hi_byte (sp s - of_nat (frame_size v)), 1 := 0,
                         26 := lo_byte (current_tcb a (pushed_mem v s) + 2),
                         27 := hi_byte (current_tcb a (pushed_mem v s) + 2)),
        sreg := ((sreg s AND NOT sreg_I) AND NOT 0x1C) OR 0x02,
        sp := sp s - of_nat (frame_size v),
        mem := (pushed_mem v s)
                 (current_tcb a (pushed_mem v s) := lo_byte (sp s - of_nat (frame_size v)),
                  current_tcb a (pushed_mem v s) + 1 := hi_byte (sp s - of_nat (frame_size v)))\<rparr>"
proof (cases v)
  case True
  have "exec True (portSAVE_CONTEXT True a) s =
        exec True [LDS 26 a, LDS 27 (a + 1), IN 0 SP_L, ST_Xinc 0, IN 0 SP_H, ST_Xinc 0]
          (exec True ([PUSH 0, IN 0 SREG, CLI, PUSH 0, IN 0 IO_0x3B, PUSH 0, IN 0 IO_0x3C, PUSH 0,
               PUSH 1, CLR 1] @ map PUSH [2..<32]) s)"
    unfolding save_split3 by (simp only: exec_append append_assoc [symmetric])
  then show ?thesis
    unfolding save_pushes3 save_suffix using True
    by (intro cpu.equality) (simp_all add: frame_size_def fun_eq_iff)
next
  case False
  have "exec False (portSAVE_CONTEXT False a) s =
        exec False [LDS 26 a, LDS 27 (a + 1), IN 0 SP_L, ST_Xinc 0, IN 0 SP_H, ST_Xinc 0]
          (exec False ([PUSH 0, IN 0 SREG, CLI, PUSH 0, PUSH 1, CLR 1] @ map PUSH [2..<32]) s)"
    unfolding save_split2 by (simp only: exec_append append_assoc [symmetric])
  then show ?thesis
    unfolding save_pushes2 save_suffix using False
    by (intro cpu.equality) (simp_all add: frame_size_def fun_eq_iff)
qed

lemma exec_pops_desc:
  "lo \<le> hi \<Longrightarrow>
   exec t (map POP (rev [lo..<hi])) u =
     u\<lparr>regs := (\<lambda>r. if lo \<le> r \<and> r < hi then mem u (sp u + of_nat (hi - r)) else regs u r),
        sp := sp u + of_nat (hi - lo)\<rparr>"
proof (induction hi arbitrary: u)
  case 0
  then show ?case by simp
next
  case (Suc hi)
  show ?case
  proof (cases "lo = Suc hi")
    case True
    then show ?thesis by (intro cpu.equality) (auto simp add: fun_eq_iff)
  next
    case False
    with Suc.prems have le: "lo \<le> hi" by simp
    show ?thesis
      using le Suc.IH [OF le]
      by (intro cpu.equality) (auto simp add: exec_instr_def fun_eq_iff Suc_diff_le add.assoc)
  qed
qed

lemma exec_pops_1_32:
  "exec t (map POP (rev [Suc 0..<32])) u =
     u\<lparr>regs := (\<lambda>r. if Suc 0 \<le> r \<and> r < 32 then mem u (sp u + of_nat (32 - r)) else regs u r),
        sp := sp u + 31\<rparr>"
  by (subst exec_pops_desc) simp_all

lemma restore_split2:
  "portRESTORE_CONTEXT False a =
     [LDS 26 a, LDS 27 (a + 1), LD_Xinc 28, OUT SP_L 28, LD_Xinc 29, OUT SP_H 29]
     @ map POP (rev [1..<32]) @ [POP 0, OUT SREG 0, POP 0]"
  by (simp add: portRESTORE_CONTEXT_def upt_1_32)

lemma restore_split3:
  "portRESTORE_CONTEXT True a =
     [LDS 26 a, LDS 27 (a + 1), LD_Xinc 28, OUT SP_L 28, LD_Xinc 29, OUT SP_H 29]
     @ map POP (rev [1..<32])
     @ [POP 0, OUT IO_0x3C 0, POP 0, OUT IO_0x3B 0, POP 0, OUT SREG 0, POP 0]"
  by (simp add: portRESTORE_CONTEXT_def upt_1_32)

lemma restore_prefix:
  "exec v [LDS 26 a, LDS 27 (a + 1), LD_Xinc 28, OUT SP_L 28, LD_Xinc 29, OUT SP_H 29] u =
     u\<lparr>regs := (regs u)(26 := lo_byte (current_tcb a (mem u) + 2),
                         27 := hi_byte (current_tcb a (mem u) + 2),
                         28 := mem u (current_tcb a (mem u)),
                         29 := mem u (current_tcb a (mem u) + 1)),
        sp := saved_sp a (mem u)\<rparr>"
  by (intro cpu.equality)
     (simp_all add: ex_simps current_tcb_def saved_sp_def fun_eq_iff add.commute)

lemma restore_suffix2:
  "exec False [POP 0, OUT SREG 0, POP 0] u =
     u\<lparr>regs := (regs u)(0 := mem u (sp u + 2)), sreg := mem u (sp u + 1), sp := sp u + 2\<rparr>"
  by (intro cpu.equality) (simp_all add: ex_simps fun_eq_iff add.commute)

lemma restore_suffix3:
  "exec True [POP 0, OUT IO_0x3C 0, POP 0, OUT IO_0x3B 0, POP 0, OUT SREG 0, POP 0] u =
     u\<lparr>regs := (regs u)(0 := mem u (sp u + 4)), eind := mem u (sp u + 1),
        rampz := mem u (sp u + 2), sreg := mem u (sp u + 3), sp := sp u + 4\<rparr>"
  by (intro cpu.equality) (simp_all add: ex_simps fun_eq_iff add.commute)

lemma restore_effect2:
  "exec False (portRESTORE_CONTEXT False a) u =
     u\<lparr>regs := (\<lambda>r. if r = 0 then mem u (saved_sp a (mem u) + 33)
                     else if r < 32 then mem u (saved_sp a (mem u) + of_nat (32 - r))
                     else regs u r),
        sreg := mem u (saved_sp a (mem u) + 32),
        sp := saved_sp a (mem u) + 33\<rparr>"
  unfolding restore_split2 exec_append restore_prefix restore_suffix2
  by (intro cpu.equality)
     (simp_all add: exec_pops_1_32 fun_eq_iff add.commute del: upt_rec_numeral)

lemma restore_effect3:
  "exec True (portRESTORE_CONTEXT True a) u =
     u\<lparr>regs := (\<lambda>r. if r = 0 then mem u (saved_sp a (mem u) + 35)
                     else if r < 32 then mem u (saved_sp a (mem u) + of_nat (32 - r))
                     else regs u r),
        eind := mem u (saved_sp a (mem u) + 32),
        rampz := mem u (saved_sp a (mem u) + 33),
        sreg := mem u (saved_sp a (mem u) + 34),
        sp := saved_sp a (mem u) + 35\<rparr>"
  unfolding restore_split3 exec_append restore_prefix restore_suffix3
  by (intro cpu.equality)
     (simp_all add: exec_pops_1_32 fun_eq_iff add.commute del: upt_rec_numeral)

lemma frame_size_le: "frame_size v \<le> 65536"
  by (simp add: frame_size_def)

lemma pushed_mem_lookup:
  "pushed_mem v s x =
     (if in_frame (sp s) (frame_size v) x then context_fields v s ! unat (sp s - x) else mem s x)"
  unfolding pushed_mem_def in_frame_def
  by (subst snd_store_down) (simp_all add: length_context_fields frame_size_le)

lemma unat_frame_index:
  fixes p0 :: addr
  assumes "k < 65536"
  shows "unat (p0 - (p0 - of_nat k)) = k"
proof -
  have "p0 - (p0 - of_nat k) = (of_nat k :: addr)" by simp
  moreover have "unat (of_nat k :: addr) = k"
    using assms by (simp add: unat_of_nat)
  ultimately show ?thesis by simp
qed

lemma in_frame_index: "k < n \<Longrightarrow> n \<le> 65536 \<Longrightarrow> in_frame p0 n (p0 - of_nat k)"
  using unat_frame_index [of k p0] by (simp add: in_frame_def)

lemma context_fields_nth_0: "context_fields v s ! 0 = regs s 0"
  by (simp add: context_fields_def)

lemma context_fields_nth_1: "context_fields v s ! Suc 0 = sreg s"
  by (simp add: context_fields_def)

lemma context_fields_nth_reg:
  "1 \<le> r \<Longrightarrow> r < 32 \<Longrightarrow> context_fields v s ! (frame_size v - 32 + r) = regs s r"
  by (simp add: context_fields_def frame_size_def nth_append nth_Cons' del: upt_rec_numeral)

lemma context_fields_nth_rampz: "context_fields True s ! 2 = rampz s"
  by (simp add: context_fields_def)

lemma context_fields_nth_eind: "context_fields True s ! 3 = eind s"
  by (simp add: context_fields_def)

lemma tcb_after_pushes:
  assumes "save_layout_ok v a s"
  shows "current_tcb a (pushed_mem v s) = current_tcb a (mem s)"
  using assms by (simp add: save_layout_ok_def Let_def current_tcb_def pushed_mem_lookup)

lemma mem_after_save:
  assumes "save_layout_ok v a s"
  shows "mem (exec v (portSAVE_CONTEXT v a) s) =
           (pushed_mem v s)
             (current_tcb a (mem s) := lo_byte (sp s - of_nat (frame_size v)),
              current_tcb a (mem s) + 1 := hi_byte (sp s - of_nat (frame_size v)))"
  by (simp add: save_effect tcb_after_pushes [OF assms])

lemma saved_sp_after_save:
  assumes "save_layout_ok v a s"
  shows "saved_sp a (mem (exec v (portSAVE_CONTEXT v a) s)) = sp s - of_nat (frame_size v)"
proof -
  let ?t = "current_tcb a (mem s)"
  let ?m = "mem (exec v (portSAVE_CONTEXT v a) s)"
  from assms have ne: "?t \<noteq> a" "?t \<noteq> a + 1" "?t + 1 \<noteq> a"
    and out: "\<not> in_frame (sp s) (frame_size v) a" "\<not> in_frame (sp s) (frame_size v) (a + 1)"
    by (simp_all add: save_layout_ok_def Let_def)
  have "current_tcb a ?m = ?t"
    using ne out unfolding mem_after_save [OF assms]
    by (simp add: current_tcb_def [of a] pushed_mem_lookup)
  then show ?thesis
    unfolding saved_sp_def
    by (simp add: mem_after_save [OF assms] current_tcb_def [of "current_tcb a (mem s)"] mk16_bytes)
qed

lemma save_readback:
  assumes ok: "save_layout_ok v a s" and k: "k < frame_size v"
  shows "mem (exec v (portSAVE_CONTEXT v a) s) (sp s - of_nat k) = context_fields v s ! k"
proof -
  let ?t = "current_tcb a (mem s)"
  let ?x = "sp s - of_nat k"
  have inf: "in_frame (sp s) (frame_size v) ?x"
    using k by (rule in_frame_index) (rule frame_size_le)
  from ok have "\<not> in_frame (sp s) (frame_size v) ?t" "\<not> in_frame (sp s) (frame_size v) (?t + 1)"
    by (simp_all add: save_layout_ok_def Let_def)
  with inf have ne: "?x \<noteq> ?t" "?x \<noteq> ?t + 1" by auto
  have k': "k < 65536" using k frame_size_le [of v] by simp
  show ?thesis
    using ne inf unat_frame_index [OF k', of "sp s"]
    by (simp add: mem_after_save [OF ok] pushed_mem_lookup)
qed

lemma pop_address:
  fixes p0 :: addr
  assumes "j \<le> n"
  shows "p0 - of_nat n + of_nat j = p0 - of_nat (n - j)"
  using assms by (simp add: of_nat_diff)

lemma restore_regs:
  "regs (exec v (portRESTORE_CONTEXT v a) u) r =
     (if r = 0 then mem u (saved_sp a (mem u) + of_nat (frame_size v))
      else if r < 32 then mem u (saved_sp a (mem u) + of_nat (32 - r))
      else regs u r)"
  by (cases v) (simp_all add: restore_effect2 restore_effect3 frame_size_def del: of_nat_diff)

lemma restore_sreg:
  "sreg (exec v (portRESTORE_CONTEXT v a) u) = mem u (saved_sp a (mem u) + of_nat (frame_size v - 1))"
  by (cases v) (simp_all add: restore_effect2 restore_effect3 frame_size_def)

lemma restore_sp:
  "sp (exec v (portRESTORE_CONTEXT v a) u) = saved_sp a (mem u) + of_nat (frame_size v)"
  by (cases v) (simp_all add: restore_effect2 restore_effect3 frame_size_def)

lemma restore_rampz:
  "rampz (exec v (portRESTORE_CONTEXT v a) u) =
     (if v then mem u (saved_sp a (mem u) + of_nat (frame_size v - 2)) else rampz u)"
  by (cases v) (simp_all add: restore_effect2 restore_effect3 frame_size_def)

lemma restore_eind:
  "eind (exec v (portRESTORE_CONTEXT v a) u) =
     (if v then mem u (saved_sp a (mem u) + of_nat (frame_size v - 3)) else eind u)"
  by (cases v) (simp_all add: restore_effect2 restore_effect3 frame_size_def)

lemma restore_pc: "pc (exec v (portRESTORE_CONTEXT v a) u) = pc u"
  by (cases v) (simp_all add: restore_effect2 restore_effect3)

lemma restore_mem: "mem (exec v (portRESTORE_CONTEXT v a) u) = mem u"
  by (cases v) (simp_all add: restore_effect2 restore_effect3)

lemma save_regs_high: "\<not> r < 32 \<Longrightarrow> regs (exec v (portSAVE_CONTEXT v a) s) r = regs s r"
  by (simp add: save_effect)

lemma save_sp: "sp (exec v (portSAVE_CONTEXT v a) s) = sp s - of_nat (frame_size v)"
  by (simp add: save_effect)

lemma save_others:
  "rampz (exec v (portSAVE_CONTEXT v a) s) = rampz s"
  "eind (exec v (portSAVE_CONTEXT v a) s) = eind s"
  "pc (exec v (portSAVE_CONTEXT v a) s) = pc s"
  by (simp_all add: save_effect)

lemma frame_size_pos: "3 < frame_size v"
  by (simp add: frame_size_def)

lemma restore_reads_frame:
  assumes ok: "save_layout_ok v a s" and j: "0 < j" "j \<le> frame_size v"
  shows "mem (exec v (portSAVE_CONTEXT v a) s)
           (saved_sp a (mem (exec v (portSAVE_CONTEXT v a) s)) + of_nat j)
         = context_fields v s ! (frame_size v - j)"
proof -
  have "sp s - of_nat (frame_size v) + of_nat j = sp s - of_nat (frame_size v - j)"
    using j(2) by (rule pop_address)
  moreover have "frame_size v - j < frame_size v"
    using j by simp
  ultimately show ?thesis
    using save_readback [OF ok, of "frame_size v - j"]
    by (simp only: saved_sp_after_save [OF ok])
qed

subsection \<open>Facts about the builder, the interrupt flag and the tick source\<close>

lemma pc_join2:
  "push_bit 8 (ucast (ucast (drop_bit 8 c AND 0xff :: addr) :: byte)) OR ucast (ucast (c AND 0xff :: addr) :: byte)
     = (ucast (c :: addr) :: 24 word)"
  unfolding ff_mask
  by (rule bit_eqI) (auto simp add: bit_simps dest: bit_imp_le_length)

lemma store_down_slot:
  assumes "k < length bs" "length bs \<le> 65536"
  shows "snd (store_down m p bs) (p - of_nat k) = bs ! k"
proof -
  have "k < 65536" using assms by simp
  then have "unat (p - (p - of_nat k)) = k" by (rule unat_frame_index)
  then show ?thesis using assms by (simp add: snd_store_down)
qed

lemma init_slots2:
  "snd (pxPortInitialiseStack False m p c a) (p - 3) = ucast (c AND 0xff)"
  "snd (pxPortInitialiseStack False m p c a) (p - 4) = ucast (drop_bit 8 c AND 0xff)"
  "snd (pxPortInitialiseStack False m p c a) (p - 6) = portFLAGS_INT_ENABLED"
  "snd (pxPortInitialiseStack False m p c a) (p - 30) = ucast (a AND 0xff)"
  "snd (pxPortInitialiseStack False m p c a) (p - 31) = ucast (drop_bit 8 a AND 0xff)"
  unfolding pxPortInitialiseStack_def
  using store_down_slot [of 3 _ m p] store_down_slot [of 4 _ m p] store_down_slot [of 6 _ m p]
    store_down_slot [of 30 _ m p] store_down_slot [of 31 _ m p]
  by simp_all

lemma init_slots3:
  "snd (pxPortInitialiseStack True m p c a) (p - 3) = ucast (c AND 0xff)"
  "snd (pxPortInitialiseStack True m p c a) (p - 4) = ucast (drop_bit 8 c AND 0xff)"
  "snd (pxPortInitialiseStack True m p c a) (p - 5) = 0"
  "snd (pxPortInitialiseStack True m p c a) (p - 7) = portFLAGS_INT_ENABLED"
  "snd (pxPortInitialiseStack True m p c a) (p - 33) = ucast (a AND 0xff)"
  "snd (pxPortInitialiseStack True m p c a) (p - 34) = ucast (drop_bit 8 a AND 0xff)"
  unfolding pxPortInitialiseStack_def
  using store_down_slot [of 3 _ m p] store_down_slot [of 4 _ m p] store_down_slot [of 5 _ m p]
    store_down_slot [of 7 _ m p] store_down_slot [of 33 _ m p] store_down_slot [of 34 _ m p]
  by simp_all

lemma fst_init: "fst (pxPortInitialiseStack v m p c a) = p - of_nat (3 + pc_bytes v + frame_size v)"
  by (simp add: pxPortInitialiseStack_def fst_store_down pc_bytes_def frame_size_def)

lemma I_flag_set: "portFLAGS_INT_ENABLED AND sreg_I \<noteq> 0"
  by (simp add: portFLAGS_INT_ENABLED_def sreg_I_def)

lemma read_down_store_down:
  assumes "j + n \<le> length vs" "length vs \<le> 65536"
  shows "read_down (snd (store_down m p vs)) (p - of_nat j) n = take n (drop j vs)"
proof (rule nth_equalityI)
  show "length (read_down (snd (store_down m p vs)) (p - of_nat j) n) = length (take n (drop j vs))"
    using assms by (simp add: read_down_def)
next
  fix i
  assume "i < length (read_down (snd (store_down m p vs)) (p - of_nat j) n)"
  then have i: "i < n" by (simp add: read_down_def)
  then have "j + i < length vs" using assms by simp
  then have slot: "snd (store_down m p vs) (p - of_nat (j + i)) = vs ! (j + i)"
    using assms(2) by (rule store_down_slot)
  have e: "p - of_nat j - of_nat i = p - of_nat (j + i)" by simp
  have "read_down (snd (store_down m p vs)) (p - of_nat j) n ! i
          = snd (store_down m p vs) (p - of_nat j - of_nat i)"
    using i by (simp add: read_down_def)
  also have "\<dots> = vs ! (j + i)"
    unfolding e by (rule slot)
  also have "\<dots> = take n (drop j vs) ! i"
    using i assms by simp
  finally show "read_down (snd (store_down m p vs)) (p - of_nat j) n ! i = take n (drop j vs) ! i" .
qed

lemma save_read_down:
  assumes "save_layout_ok v a s"
  shows "read_down (mem (exec v (portSAVE_CONTEXT v a) s)) (sp s) (frame_size v) = context_fields v s"
  by (rule nth_equalityI)
     (simp_all add: read_down_def length_context_fields save_readback [OF assms])

lemma fresh_context_fields:
  assumes "\<forall>r<32. regs s r = initial_regs pvParameters r"
    and "sreg s = portFLAGS_INT_ENABLED" and "rampz s = 0" and "eind s = 0"
  shows "context_fields v s =
     [0x00, portFLAGS_INT_ENABLED] @ (if v then [0x00, 0x00] else []) @
     [ 0x00, 0x02, 0x03, 0x04, 0x05, 0x06, 0x07, 0x08, 0x09,
       0x10, 0x11, 0x12, 0x13, 0x14, 0x15, 0x16, 0x17, 0x18, 0x19,
       0x20, 0x21, 0x22, 0x23,
       ucast (pvParameters AND 0x00ff), ucast (drop_bit 8 pvParameters AND 0x00ff),
       0x26, 0x27, 0x28, 0x29, 0x30, 0x31 ]"
proof -
  have "map (regs s) [1..<32] = map (initial_regs pvParameters) [1..<32]"
    using assms(1) by (intro map_cong) simp_all
  moreover have "regs s 0 = initial_regs pvParameters 0"
    using assms(1) by simp
  ultimately show ?thesis
    using assms(2-4) by (simp add: context_fields_def initial_regs_def upt_1_32)
qed

lemma init_read_down:
  "read_down (snd (pxPortInitialiseStack v m p c x)) (p - of_nat (3 + pc_bytes v)) (frame_size v) =
     [0x00, portFLAGS_INT_ENABLED] @ (if v then [0x00, 0x00] else []) @
     [ 0x00, 0x02, 0x03, 0x04, 0x05, 0x06, 0x07, 0x08, 0x09,
       0x10, 0x11, 0x12, 0x13, 0x14, 0x15, 0x16, 0x17, 0x18, 0x19,
       0x20, 0x21, 0x22, 0x23,
       ucast (x AND 0x00ff), ucast (drop_bit 8 x AND 0x00ff),
       0x26, 0x27, 0x28, 0x29, 0x30, 0x31 ]"
  unfolding pxPortInitialiseStack_def
  by (subst read_down_store_down) (simp_all add: pc_bytes_def frame_size_def)

lemma clr_keeps_I:
  fixes x :: byte
  shows "(x AND - 29 OR 2) AND 128 = x AND 128"
  by (simp add: bit.conj_disj_distrib2 and.assoc)

lemma cli_clears_I:
  fixes x :: byte
  shows "(x AND - 129) AND 128 = 0"
  by (simp add: and.assoc)

lemma exec_instr_keeps_I_clear:
  assumes "\<not> writes_I_flag i" "\<not> interrupts_enabled s"
  shows "\<not> interrupts_enabled (exec_instr v i s)"
  using assms
  by (cases i)
     (auto simp add: exec_instr_def interrupts_enabled_def writes_I_flag_def sreg_I_def
        io_write_def set_Xreg_def clr_keeps_I cli_clears_I split: ioreg.splits)

lemma exec_keeps_I_clear:
  assumes "\<forall>i\<in>set is. \<not> writes_I_flag i" "\<not> interrupts_enabled s"
  shows "\<not> interrupts_enabled (exec v is s)"
  using assms by (induction "is" arbitrary: s) (simp_all add: exec_instr_keeps_I_clear)

lemma save_tail_no_I:
  "\<forall>i\<in>set (drop 3 (portSAVE_CONTEXT v a)). \<not> writes_I_flag i"
  by (simp add: portSAVE_CONTEXT_def writes_I_flag_def)

lemma save_head:
  "take 3 (portSAVE_CONTEXT v a) = [PUSH 0, IN 0 SREG, CLI]"
  by (simp add: portSAVE_CONTEXT_def)

lemma save_head_clears_I:
  "\<not> interrupts_enabled (exec v (take 3 (portSAVE_CONTEXT v a)) s)"
  unfolding save_head
  by (simp add: exec_instr_def io_read_def interrupts_enabled_def sreg_I_def cli_clears_I)

lemma save_I_clear_from_3:
  assumes "3 \<le> k"
  shows "\<not> interrupts_enabled (exec v (take k (portSAVE_CONTEXT v a)) s)"
proof -
  let ?xs = "portSAVE_CONTEXT v a"
  have "take k ?xs = take 3 ?xs @ take (k - 3) (drop 3 ?xs)"
    using assms by (metis le_add_diff_inverse take_add)
  moreover have "\<forall>i\<in>set (take (k - 3) (drop 3 ?xs)). \<not> writes_I_flag i"
    using save_tail_no_I [of v a] by (meson in_set_takeD)
  ultimately show ?thesis
    by (simp add: exec_append exec_keeps_I_clear save_head_clears_I del: exec.simps)
qed

lemma save_early_pushes:
  assumes "k < 3" "portSAVE_CONTEXT v a ! k = PUSH r"
  shows "r = 0"
proof -
  have "take 3 (portSAVE_CONTEXT v a) ! k = PUSH r" using assms by simp
  then show ?thesis
    unfolding save_head using assms(1)
    by (cases k rule: nat.exhaust) (auto simp add: nth_Cons' split: if_splits)
qed

lemma example_layout_ok: "save_layout_ok False 0x0100 example_cpu"
  by (simp add: save_layout_ok_def example_cpu_def current_tcb_def mk16_def in_frame_def
        frame_size_def)

lemma to_TickType_t_id:
  assumes "use16 \<longrightarrow> unat x < 65536"
  shows "to_TickType_t use16 x = x"
proof (cases use16)
  case True
  with assms have "unat x < 2 ^ 16" by simp
  then have "x < 2 ^ 16" by (simp add: word_less_nat_alt)
  then have "x AND mask 16 = x" by (simp add: less_mask_eq)
  moreover have "(0xFFFF :: 32 word) = mask 16" by (simp add: mask_eq_exp_minus_1)
  ultimately show ?thesis using True by (simp add: to_TickType_t_def)
next
  case False
  then show ?thesis by (simp add: to_TickType_t_def)
qed

lemma unat_compare_quotient:
  "unat (compare_quotient cfg)
     = unat (configCPU_CLOCK_HZ cfg) div unat (configTICK_RATE_HZ cfg) div 1024"
  by (simp add: compare_quotient_def portCLOCK_PRESCALER_def unat_div)

lemma unat_prescaled_quotient:
  "unat (portCLOCK_PRESCALER * compare_quotient cfg) = 1024 * unat (compare_quotient cfg)"
proof -
  let ?c = "unat (configCPU_CLOCK_HZ cfg)" and ?r = "unat (configTICK_RATE_HZ cfg)"
  have "1024 * (?c div ?r div 1024) \<le> ?c div ?r" by simp
  also have "\<dots> \<le> ?c" by (rule div_le_dividend)
  also have "?c < 2 ^ 32" using unsigned_less [of "configCPU_CLOCK_HZ cfg"] by simp
  finally have "unat (1024 :: 32 word) * unat (compare_quotient cfg) < 2 ^ LENGTH(32)"
    by (simp add: unat_compare_quotient)
  then have "unat (1024 * compare_quotient cfg) = unat (1024 :: 32 word) * unat (compare_quotient cfg)"
    by (simp only: unat_mult_lem)
  then show ?thesis by (simp add: portCLOCK_PRESCALER_def)
qed

lemma prescaled_quotient_zero:
  "portCLOCK_PRESCALER * compare_quotient cfg = 0 \<longleftrightarrow> compare_quotient cfg = 0"
proof -
  have "unat (portCLOCK_PRESCALER * compare_quotient cfg) = 0 \<longleftrightarrow> unat (compare_quotient cfg) = 0"
    by (simp add: unat_prescaled_quotient)
  then show ?thesis by (simp only: unat_eq_0)
qed

lemma timer0_result:
  assumes "configTICK_RATE_HZ cfg \<noteq> 0" "compare_quotient cfg \<noteq> 0"
  shows "prvSetupTimerInterrupt_TIMER0 cfg s =
     Some (s\<lparr>portTickRateHz :=
                 to_TickType_t (configUSE_16_BIT_TICKS cfg)
                   (configCPU_CLOCK_HZ cfg div (portCLOCK_PRESCALER * compare_quotient cfg)),
               ticksRemainingInSec :=
                 to_TickType_t (configUSE_16_BIT_TICKS cfg)
                   (configCPU_CLOCK_HZ cfg div (portCLOCK_PRESCALER * compare_quotient cfg)),
               OCR0A := ucast ((compare_quotient cfg - 1) AND 0xff),
               TCCR0A := portCLEAR_COUNTER_ON_MATCH,
               TCCR0B := portPRESCALE_1024,
               TIMSK0 := TIMSK0 s OR portCOMPARE_MATCH_A_INTERRUPT_ENABLE\<rparr>)"
  using assms prescaled_quotient_zero [of cfg]
  by (simp add: prvSetupTimerInterrupt_TIMER0_def Let_def compare_quotient_def)

lemma timer0_none:
  assumes "configTICK_RATE_HZ cfg = 0 \<or> compare_quotient cfg = 0"
  shows "prvSetupTimerInterrupt_TIMER0 cfg s = None"
  using assms prescaled_quotient_zero [of cfg]
  by (auto simp add: prvSetupTimerInterrupt_TIMER0_def Let_def compare_quotient_def)

lemma unat_reported_rate:
  assumes "configUSE_16_BIT_TICKS cfg \<longrightarrow>
             unat (configCPU_CLOCK_HZ cfg) div (1024 * unat (compare_quotient cfg)) < 65536"
  shows "unat (to_TickType_t (configUSE_16_BIT_TICKS cfg)
                (configCPU_CLOCK_HZ cfg div (portCLOCK_PRESCALER * compare_quotient cfg)))
           = unat (configCPU_CLOCK_HZ cfg) div (1024 * unat (compare_quotient cfg))"
proof -
  have e: "unat (configCPU_CLOCK_HZ cfg div (portCLOCK_PRESCALER * compare_quotient cfg))
             = unat (configCPU_CLOCK_HZ cfg) div (1024 * unat (compare_quotient cfg))"
    by (simp only: unat_div unat_prescaled_quotient)
  with assms have "configUSE_16_BIT_TICKS cfg \<longrightarrow>
      unat (configCPU_CLOCK_HZ cfg div (portCLOCK_PRESCALER * compare_quotient cfg)) < 65536"
    by simp
  then show ?thesis by (simp only: to_TickType_t_id e)
qed

lemma unat_compare_value:
  assumes "1 \<le> unat (compare_quotient cfg)" "unat (compare_quotient cfg) \<le> 256"
  shows "unat (ucast ((compare_quotient cfg - 1) AND 0xff) :: byte) = unat (compare_quotient cfg) - 1"
proof -
  let ?q = "compare_quotient cfg"
  have "?q \<noteq> 0" using assms(1) by (auto simp add: unat_eq_0)
  then have u: "unat (?q - 1) = unat ?q - 1" by (rule unat_minus_one)
  have m: "(0xff :: 32 word) = mask 8" by (simp add: mask_eq_exp_minus_1)
  have "unat (ucast ((?q - 1) AND mask 8) :: byte) = unat (?q - 1) mod 256"
    by (simp add: unsigned_ucast_eq unsigned_take_bit_eq take_bit_eq_mod unat_mod flip: take_bit_eq_mask)
  then show ?thesis using assms u unfolding m by simp
qed

lemma example_quotient_1000: "compare_quotient (example_config 1000) = 15"
  by (simp add: compare_quotient_def example_config_def portCLOCK_PRESCALER_def)

lemma example_quotient_10: "compare_quotient (example_config 10) = 1562"
  by (simp add: compare_quotient_def example_config_def portCLOCK_PRESCALER_def)

lemma example_quotient_20000: "compare_quotient (example_config 20000) = 0"
  by (simp add: compare_quotient_def example_config_def portCLOCK_PRESCALER_def)

lemma quotient_brackets_rate:
  fixes c r :: nat
  assumes "0 < r" "0 < c div r div 1024"
  shows "r \<le> c div (1024 * (c div r div 1024))"
    and "c div (1024 * (c div r div 1024 + 1)) < r"
proof -
  let ?q = "c div r div 1024"
  have q: "?q = c div (r * 1024)" by (simp add: div_mult2_eq)
  have "?q * (r * 1024) \<le> c" unfolding q by (rule div_times_less_eq_dividend)
  then have "r * (1024 * ?q) \<le> c" by (simp add: mult.commute mult.left_commute)
  then show "r \<le> c div (1024 * ?q)"
    using assms(2) by (simp add: less_eq_div_iff_mult_less_eq)
  have "c < r * 1024 + (c div (r * 1024)) * (r * 1024)"
    using dividend_less_div_times [of "r * 1024" c] assms(1) by simp
  then have "c < r * (1024 * (c div (r * 1024) + 1))" by (simp add: algebra_simps)
  then have "c < r * (1024 * (?q + 1))" by (simp only: q)
  then show "c div (1024 * (?q + 1)) < r"
    by (simp add: div_less_iff_less_mult)
qed

lemma wdt_interrupt_enable_writes:
  "wd_control_writes (wdt_interrupt_enable t val s) =
     wd_control_writes s @
       [BV WD_CHANGE_BIT OR BV WDE,
        (if val AND 0x08 \<noteq> 0 then WD_PS3_MASK else 0x00) OR BV WDIF OR BV WDIE OR (val AND 0x07)]"
  "WD_CONTROL_REG (wdt_interrupt_enable t val s) =
     (if val AND 0x08 \<noteq> 0 then WD_PS3_MASK else 0x00) OR BV WDIF OR BV WDIE OR (val AND 0x07)"
  by (simp_all add: wdt_interrupt_enable_def Let_def write_WD_CONTROL_REG_def wdr_def on_core_def)

lemma wd_value_bits:
  fixes val :: byte
  shows "bit ((if val AND 0x08 \<noteq> 0 then WD_PS3_MASK else 0x00) OR BV WDIF OR BV WDIE OR (val AND 0x07)) WDIE"
    and "\<not> bit ((if val AND 0x08 \<noteq> 0 then WD_PS3_MASK else 0x00) OR BV WDIF OR BV WDIE OR (val AND 0x07)) WDE"
proof -
  have "(7 :: byte) = mask 3" by (simp add: mask_eq_exp_minus_1)
  then show "bit ((if val AND 0x08 \<noteq> 0 then WD_PS3_MASK else 0x00) OR BV WDIF OR BV WDIE OR (val AND 0x07)) WDIE"
    and "\<not> bit ((if val AND 0x08 \<noteq> 0 then WD_PS3_MASK else 0x00) OR BV WDIF OR BV WDIE OR (val AND 0x07)) WDE"
    by (simp_all add: WD_PS3_MASK_def BV_def WDIF_def WDIE_def WDE_def WDP3_def bit_simps)
qed








lemma kernel_calls_on_core: "kernel_calls (on_core f s) = kernel_calls s"
  by (simp add: on_core_def)

lemma kernel_calls_increment:
  "kernel_calls (snd (call_xTaskIncrementTick f s)) = kernel_calls s @ [Call_xTaskIncrementTick]"
  by (simp add: call_xTaskIncrementTick_def)

lemma fst_call_increment: "fst (call_xTaskIncrementTick f s) = fst (f s)"
  by (simp add: call_xTaskIncrementTick_def)

lemma kernel_calls_switch:
  "kernel_calls (call_vTaskSwitchContext g s) = kernel_calls s @ [Call_vTaskSwitchContext]"
  by (simp add: call_vTaskSwitchContext_def)

lemma yield_from_tick_calls:
  "kernel_calls (vPortYieldFromTick cfg f g s) =
     kernel_calls s @ Call_xTaskIncrementTick #
       (if fst (f (on_core (exec (three_byte_pc cfg)
                     (portSAVE_CONTEXT (three_byte_pc cfg) (pxCurrentTCB cfg))) s)) \<noteq> pdFALSE
        then [Call_vTaskSwitchContext] else [])"
  by (simp add: vPortYieldFromTick_def Let_def kernel_calls_on_core kernel_calls_increment
        fst_call_increment kernel_calls_switch)

lemma yield_from_tick_not_due:
  assumes "fst (f (on_core (exec (three_byte_pc cfg)
                     (portSAVE_CONTEXT (three_byte_pc cfg) (pxCurrentTCB cfg))) s)) = pdFALSE"
  shows "vPortYieldFromTick cfg f g s =
     on_core (exec (three_byte_pc cfg) [RET])
       (on_core (exec (three_byte_pc cfg)
                  (portRESTORE_CONTEXT (three_byte_pc cfg) (pxCurrentTCB cfg)))
         ((snd (f (on_core (exec (three_byte_pc cfg)
                     (portSAVE_CONTEXT (three_byte_pc cfg) (pxCurrentTCB cfg))) s)))
            \<lparr>kernel_calls := kernel_calls s @ [Call_xTaskIncrementTick]\<rparr>))"
  using assms
  by (simp add: vPortYieldFromTick_def Let_def call_xTaskIncrementTick_def kernel_calls_on_core
        del: exec.simps)

lemma yield_from_tick_due:
  assumes "fst (f (on_core (exec (three_byte_pc cfg)
                     (portSAVE_CONTEXT (three_byte_pc cfg) (pxCurrentTCB cfg))) s)) \<noteq> pdFALSE"
  shows "vPortYieldFromTick cfg f g s =
     on_core (exec (three_byte_pc cfg) [RET])
       (on_core (exec (three_byte_pc cfg)
                  (portRESTORE_CONTEXT (three_byte_pc cfg) (pxCurrentTCB cfg)))
         ((g ((snd (f (on_core (exec (three_byte_pc cfg)
                        (portSAVE_CONTEXT (three_byte_pc cfg) (pxCurrentTCB cfg))) s)))
                \<lparr>kernel_calls := kernel_calls s @ [Call_xTaskIncrementTick]\<rparr>))
            \<lparr>kernel_calls :=
                kernel_calls s @ [Call_xTaskIncrementTick, Call_vTaskSwitchContext]\<rparr>))"
  using assms
  by (simp add: vPortYieldFromTick_def Let_def call_xTaskIncrementTick_def
        call_vTaskSwitchContext_def kernel_calls_on_core del: exec.simps)

lemma isr_cooperative:
  assumes "configUSE_PREEMPTION cfg \<noteq> 1"
  shows "portSCHEDULER_ISR cfg isr_ret f g s =
     on_core (exec (three_byte_pc cfg) [RETI])
       ((snd (f s))\<lparr>kernel_calls := kernel_calls s @ [Call_xTaskIncrementTick]\<rparr>)"
  using assms by (simp add: portSCHEDULER_ISR_def call_xTaskIncrementTick_def del: exec.simps)

lemma sp_context_restored:
  "sp (core (context_restored cfg y)) =
     saved_sp (pxCurrentTCB cfg) (mem (core y)) + of_nat (frame_size (three_byte_pc cfg))
       + of_nat (pc_bytes (three_byte_pc cfg))"
  by (simp add: context_restored_def on_core_def exec_instr_def restore_sp pc_bytes_def)

lemma example_cfg_fields:
  "three_byte_pc (example_config r) = False" "pxCurrentTCB (example_config r) = 0x0100"
  "configUSE_PREEMPTION (example_config r) = 1"
  by (simp_all add: example_config_def)

lemma example_saved_core:
  "core (context_saved (example_config r) example_port)
     = exec False (portSAVE_CONTEXT False 0x0100) example_cpu"
  by (simp add: context_saved_def on_core_def example_cfg_fields example_port_def del: exec.simps)

lemma example_quotient_100: "compare_quotient (example_config 100) = 156"
  by (simp add: compare_quotient_def example_config_def portCLOCK_PRESCALER_def)


section \<open>Properties of the port\<close>

subsection \<open>The stack frame of a new task\<close>

text \<open>
  Claim C1.  Take any entry point and any parameter, build the frame with
  pxPortInitialiseStack, and let the control block that \<open>pxCurrentTCB\<close> points to
  hold the returned top of stack.  Restoring the context and then returning (the
  two steps that end xPortStartScheduler) sets the program counter to the entry
  point, leaves the low byte of the parameter in R24 and its high byte in R25,
  and leaves the global interrupt flag set.  The stack pointer is back just below
  the three marker bytes.  This holds for 2-byte and for 3-byte program counters.
\<close>

theorem initial_frame_round_trip:
  assumes frame: "mem u = snd (pxPortInitialiseStack v m pxTopOfStack pxCode pvParameters)"
    and tcb: "saved_sp a (mem u) = fst (pxPortInitialiseStack v m pxTopOfStack pxCode pvParameters)"
  shows "pc (exec v (portRESTORE_CONTEXT v a @ [RET]) u) = ucast pxCode
       \<and> regs (exec v (portRESTORE_CONTEXT v a @ [RET]) u) 24 = lo_byte pvParameters
       \<and> regs (exec v (portRESTORE_CONTEXT v a @ [RET]) u) 25 = hi_byte pvParameters
       \<and> interrupts_enabled (exec v (portRESTORE_CONTEXT v a @ [RET]) u)
       \<and> sp (exec v (portRESTORE_CONTEXT v a @ [RET]) u) = pxTopOfStack - 3"
proof (cases v)
  case False
  have p: "saved_sp a (snd (pxPortInitialiseStack False m pxTopOfStack pxCode pvParameters))
             = pxTopOfStack - 38"
    using tcb False unfolding frame by (simp add: fst_init pc_bytes_def frame_size_def)
  show ?thesis
    unfolding exec_append using False
    by (simp add: exec_instr_def restore_effect2 frame p init_slots2 interrupts_enabled_def
          I_flag_set lo_byte_def hi_byte_def pc_join2)
next
  case True
  have p: "saved_sp a (snd (pxPortInitialiseStack True m pxTopOfStack pxCode pvParameters))
             = pxTopOfStack - 41"
    using tcb True unfolding frame by (simp add: fst_init pc_bytes_def frame_size_def)
  show ?thesis
    unfolding exec_append using True
    by (simp add: exec_instr_def restore_effect3 frame p init_slots3 interrupts_enabled_def
          I_flag_set lo_byte_def hi_byte_def pc_join2)
qed

text \<open>
  The round trip on the concrete device: entry point 0x1234, parameter 0xABCD.
\<close>

theorem initial_frame_round_trip_witness:
  "mem example_new_task
     = snd (pxPortInitialiseStack False
              ((\<lambda>_. 0)(0x0100 := 0x00, 0x0101 := 0x02, 0x0200 := 0xD9, 0x0201 := 0x08))
              0x08FF 0x1234 0xABCD)
   \<and> saved_sp 0x0100 (mem example_new_task)
     = fst (pxPortInitialiseStack False
              ((\<lambda>_. 0)(0x0100 := 0x00, 0x0101 := 0x02, 0x0200 := 0xD9, 0x0201 := 0x08))
              0x08FF 0x1234 0xABCD)
   \<and> pc (exec False (portRESTORE_CONTEXT False 0x0100 @ [RET]) example_new_task) = 0x1234
   \<and> regs (exec False (portRESTORE_CONTEXT False 0x0100 @ [RET]) example_new_task) 24 = 0xCD
   \<and> regs (exec False (portRESTORE_CONTEXT False 0x0100 @ [RET]) example_new_task) 25 = 0xAB
   \<and> interrupts_enabled (exec False (portRESTORE_CONTEXT False 0x0100 @ [RET]) example_new_task)
   \<and> sp (exec False (portRESTORE_CONTEXT False 0x0100 @ [RET]) example_new_task) = 0x08FC"
proof -
  let ?m = "(\<lambda>_. 0)(0x0100 := 0x00, 0x0101 := 0x02, 0x0200 := 0xD9, 0x0201 := (0x08 :: byte))
              :: addr \<Rightarrow> byte"
  have frame: "mem example_new_task = snd (pxPortInitialiseStack False ?m 0x08FF 0x1234 0xABCD)"
    by (simp add: example_new_task_def)
  have look: "snd (pxPortInitialiseStack False ?m 0x08FF 0x1234 0xABCD) x = ?m x"
    if "\<not> unat (0x08FF - x) < 38" for x
    using that unfolding pxPortInitialiseStack_def by (subst snd_store_down) simp_all
  have tcb: "saved_sp 0x0100 (mem example_new_task)
               = fst (pxPortInitialiseStack False ?m 0x08FF 0x1234 0xABCD)"
    unfolding frame
    by (simp add: saved_sp_def current_tcb_def look mk16_def fst_init pc_bytes_def frame_size_def)
  from initial_frame_round_trip [OF frame tcb]
  have concl:
    "pc (exec False (portRESTORE_CONTEXT False 0x0100 @ [RET]) example_new_task) = 0x1234
     \<and> regs (exec False (portRESTORE_CONTEXT False 0x0100 @ [RET]) example_new_task) 24 = 0xCD
     \<and> regs (exec False (portRESTORE_CONTEXT False 0x0100 @ [RET]) example_new_task) 25 = 0xAB
     \<and> interrupts_enabled (exec False (portRESTORE_CONTEXT False 0x0100 @ [RET]) example_new_task)
     \<and> sp (exec False (portRESTORE_CONTEXT False 0x0100 @ [RET]) example_new_task) = 0x08FC"
    by (simp add: lo_byte_def hi_byte_def)
  show ?thesis
    by (rule conjI [OF frame conjI [OF tcb concl]])
qed

text \<open>
  Claim C2.  For both widths of the program counter: let a task whose registers
  hold the values the builder prepares (R0, flags with interrupts enabled, zero
  extended-addressing registers, R1 to R31) stand just below its return address
  and run the save macro.  Then the stack pointer it stores equals the top of
  stack the builder returns, the bytes it pushes are, position by position, the
  bytes the builder wrote below the return address, and they are R0, the status
  register, on 3-byte devices the registers at 0x3B and 0x3C, then R1 to R31 in
  ascending order.
\<close>

theorem initial_frame_matches_save:
  assumes fresh: "\<forall>r<32. regs s r = initial_regs pvParameters r"
    and flags: "sreg s = portFLAGS_INT_ENABLED" and ext: "rampz s = 0" "eind s = 0"
    and below_ret: "sp s = pxTopOfStack - of_nat (3 + pc_bytes v)"
    and ok: "save_layout_ok v a s"
  shows "fst (pxPortInitialiseStack v m pxTopOfStack pxCode pvParameters)
           = sp (exec v (portSAVE_CONTEXT v a) s)
       \<and> read_down (snd (pxPortInitialiseStack v m pxTopOfStack pxCode pvParameters))
            (sp s) (frame_size v)
           = read_down (mem (exec v (portSAVE_CONTEXT v a) s)) (sp s) (frame_size v)
       \<and> read_down (mem (exec v (portSAVE_CONTEXT v a) s)) (sp s) (frame_size v)
           = context_fields v s"
proof -
  have A: "fst (pxPortInitialiseStack v m pxTopOfStack pxCode pvParameters)
             = sp (exec v (portSAVE_CONTEXT v a) s)"
    by (simp add: fst_init save_sp below_ret)
  have B: "read_down (mem (exec v (portSAVE_CONTEXT v a) s)) (sp s) (frame_size v)
             = context_fields v s"
    by (rule save_read_down [OF ok])
  have C: "read_down (snd (pxPortInitialiseStack v m pxTopOfStack pxCode pvParameters))
             (sp s) (frame_size v) = context_fields v s"
    unfolding below_ret init_read_down fresh_context_fields [OF fresh flags ext] ..
  from A B C show ?thesis by simp
qed

text \<open>
  The comparison on the concrete device, 2-byte program counter.
\<close>

theorem initial_frame_matches_save_witness:
  "regs example_fresh_cpu = initial_regs 0xABCD
   \<and> sreg example_fresh_cpu = portFLAGS_INT_ENABLED
   \<and> sp example_fresh_cpu = 0x08FF - of_nat (3 + pc_bytes False)
   \<and> save_layout_ok False 0x0100 example_fresh_cpu
   \<and> fst (pxPortInitialiseStack False (\<lambda>_. 0) 0x08FF 0x1234 0xABCD) = 0x08D9
   \<and> sp (exec False (portSAVE_CONTEXT False 0x0100) example_fresh_cpu) = 0x08D9
   \<and> read_down (snd (pxPortInitialiseStack False (\<lambda>_. 0) 0x08FF 0x1234 0xABCD)) 0x08FA 33
        = read_down (mem (exec False (portSAVE_CONTEXT False 0x0100) example_fresh_cpu)) 0x08FA 33"
proof -
  have fresh: "\<forall>r<32. regs example_fresh_cpu r = initial_regs 0xABCD r"
    and flags: "sreg example_fresh_cpu = portFLAGS_INT_ENABLED"
    and ext: "rampz example_fresh_cpu = 0" "eind example_fresh_cpu = 0"
    and spv: "sp example_fresh_cpu = 0x08FA"
    by (simp_all add: example_fresh_cpu_def)
  have image: "regs example_fresh_cpu = initial_regs 0xABCD"
    by (simp add: example_fresh_cpu_def)
  have below: "sp example_fresh_cpu = 0x08FF - of_nat (3 + pc_bytes False)"
    by (simp add: example_fresh_cpu_def pc_bytes_def)
  have ok: "save_layout_ok False 0x0100 example_fresh_cpu"
    by (simp add: save_layout_ok_def example_fresh_cpu_def current_tcb_def mk16_def in_frame_def
          frame_size_def)
  have top: "fst (pxPortInitialiseStack False (\<lambda>_. 0) 0x08FF 0x1234 0xABCD) = 0x08D9"
    by (simp add: fst_init pc_bytes_def frame_size_def)
  show ?thesis
    using initial_frame_matches_save [OF fresh flags ext below ok, of "\<lambda>_. 0" "0x1234"]
      image flags below ok
    unfolding top spv by (simp add: frame_size_def)
qed

subsection \<open>Saving and restoring a context\<close>

text \<open>
  Claim C3.  The save macro starts with: push the scratch register, read the
  status register into it, disable interrupts.  So the flags are captured at
  position 1 and the interrupt-disable is the very next instruction.  Whatever
  the initial state, the captured value is the status register as it was before
  the save, that value is the byte pushed as the saved flags, and before every
  push of a register from R2 to R31 the global interrupt flag is clear.
\<close>

theorem save_disables_interrupts_first:
  "take 3 (portSAVE_CONTEXT v a) = [PUSH tmp_reg, IN tmp_reg SREG, CLI]
   \<and> regs (exec v (take 2 (portSAVE_CONTEXT v a)) s) tmp_reg = sreg s
   \<and> mem (exec v (take 4 (portSAVE_CONTEXT v a)) s) (sp s - 1) = sreg s
   \<and> (\<forall>k r. k < length (portSAVE_CONTEXT v a) \<and> portSAVE_CONTEXT v a ! k = PUSH r \<and> 2 \<le> r
         \<longrightarrow> \<not> interrupts_enabled (exec v (take k (portSAVE_CONTEXT v a)) s))"
proof (intro conjI allI impI)
  show "take 3 (portSAVE_CONTEXT v a) = [PUSH tmp_reg, IN tmp_reg SREG, CLI]"
    by (rule save_head)
  show "regs (exec v (take 2 (portSAVE_CONTEXT v a)) s) tmp_reg = sreg s"
    by (simp add: portSAVE_CONTEXT_def exec_instr_def io_read_def)
  show "mem (exec v (take 4 (portSAVE_CONTEXT v a)) s) (sp s - 1) = sreg s"
    by (simp add: portSAVE_CONTEXT_def exec_instr_def io_read_def)
next
  fix k r
  assume h: "k < length (portSAVE_CONTEXT v a) \<and> portSAVE_CONTEXT v a ! k = PUSH r \<and> 2 \<le> r"
  then have "3 \<le> k"
    using save_early_pushes [of k v a r] by (cases "k < 3") auto
  then show "\<not> interrupts_enabled (exec v (take k (portSAVE_CONTEXT v a)) s)"
    by (rule save_I_clear_from_3)
qed

text \<open>
  The push of R2 is instruction 6 of the 2-byte macro; interrupts are off there.
\<close>

theorem save_disables_interrupts_first_witness:
  "6 < length (portSAVE_CONTEXT False 0x0100)
   \<and> portSAVE_CONTEXT False 0x0100 ! 6 = PUSH 2
   \<and> \<not> interrupts_enabled (exec False (take 6 (portSAVE_CONTEXT False 0x0100)) example_cpu)"
proof -
  have h: "6 < length (portSAVE_CONTEXT False 0x0100)"
    "portSAVE_CONTEXT False 0x0100 ! 6 = PUSH 2"
    by (simp_all add: portSAVE_CONTEXT_def)
  from save_disables_interrupts_first [of False "0x0100" example_cpu]
  have "6 < length (portSAVE_CONTEXT False 0x0100) \<and> portSAVE_CONTEXT False 0x0100 ! 6 = PUSH 2
          \<and> (2::nat) \<le> 2
        \<longrightarrow> \<not> interrupts_enabled (exec False (take 6 (portSAVE_CONTEXT False 0x0100)) example_cpu)"
    by blast
  with h show ?thesis by simp
qed

text \<open>
  Claim C4.  For all register contents, flags and stack pointer: a context save
  immediately followed by a context restore, with \<open>pxCurrentTCB\<close> unchanged,
  gives back all 32 registers, the status register, the stack pointer, the
  extended-addressing registers and the program counter exactly as they were.
  The memory layout is the one the port relies on: the bytes pushed overlap
  neither \<open>pxCurrentTCB\<close> nor the stack-pointer field of the control block.
\<close>

theorem save_restore_symmetry:
  assumes ok: "save_layout_ok v a s"
  shows "regs (exec v (portRESTORE_CONTEXT v a) (exec v (portSAVE_CONTEXT v a) s)) = regs s
       \<and> sreg (exec v (portRESTORE_CONTEXT v a) (exec v (portSAVE_CONTEXT v a) s)) = sreg s
       \<and> sp (exec v (portRESTORE_CONTEXT v a) (exec v (portSAVE_CONTEXT v a) s)) = sp s
       \<and> rampz (exec v (portRESTORE_CONTEXT v a) (exec v (portSAVE_CONTEXT v a) s)) = rampz s
       \<and> eind (exec v (portRESTORE_CONTEXT v a) (exec v (portSAVE_CONTEXT v a) s)) = eind s
       \<and> pc (exec v (portRESTORE_CONTEXT v a) (exec v (portSAVE_CONTEXT v a) s)) = pc s"
proof -
  let ?u = "exec v (portSAVE_CONTEXT v a) s"
  let ?n = "frame_size v"
  note rd = restore_reads_frame [OF ok]
  have r0: "mem ?u (saved_sp a (mem ?u) + of_nat ?n) = regs s 0"
    using rd [of ?n] frame_size_pos [of v] by (simp add: context_fields_nth_0)
  have reg: "mem ?u (saved_sp a (mem ?u) + of_nat (32 - r)) = regs s r" if "0 < r" "r < 32" for r
  proof -
    have e: "?n - (32 - r) = ?n - 32 + r" using that by (auto simp add: frame_size_def)
    have "0 < 32 - r" "32 - r \<le> ?n" using that by (auto simp add: frame_size_def)
    then have "mem ?u (saved_sp a (mem ?u) + of_nat (32 - r)) = context_fields v s ! (?n - (32 - r))"
      by (rule rd)
    also have "\<dots> = regs s r"
      unfolding e using that by (intro context_fields_nth_reg) simp_all
    finally show ?thesis .
  qed
  have "regs (exec v (portRESTORE_CONTEXT v a) ?u) r = regs s r" for r
  proof -
    consider "r = 0" | "0 < r" "r < 32" | "\<not> r < 32" by auto
    then show ?thesis
    proof cases
      case 1
      then show ?thesis by (simp only: restore_regs r0 if_True refl)
    next
      case 2
      then have "regs (exec v (portRESTORE_CONTEXT v a) ?u) r
                 = mem ?u (saved_sp a (mem ?u) + of_nat (32 - r))"
        unfolding restore_regs by simp
      then show ?thesis by (simp only: reg [OF 2])
    next
      case 3
      then have "regs (exec v (portRESTORE_CONTEXT v a) ?u) r = regs ?u r"
        unfolding restore_regs by auto
      then show ?thesis by (simp only: save_regs_high [OF 3])
    qed
  qed
  then have A: "regs (exec v (portRESTORE_CONTEXT v a) ?u) = regs s" by (rule ext)
  have "?n - (?n - 1) = Suc 0" using frame_size_pos [of v] by simp
  then have B: "sreg (exec v (portRESTORE_CONTEXT v a) ?u) = sreg s"
    unfolding restore_sreg using rd [of "?n - 1"] frame_size_pos [of v]
    by (simp add: context_fields_nth_1 del: of_nat_diff)
  have C: "sp (exec v (portRESTORE_CONTEXT v a) ?u) = sp s"
    unfolding restore_sp saved_sp_after_save [OF ok] by simp
  have D: "rampz (exec v (portRESTORE_CONTEXT v a) ?u) = rampz s"
  proof (cases v)
    case True
    then have "?n - (?n - 2) = 2" by (simp add: frame_size_def)
    then show ?thesis
      unfolding restore_rampz using rd [of "?n - 2"] frame_size_pos [of v] True
      by (simp add: context_fields_nth_rampz del: of_nat_diff)
  next
    case False
    then show ?thesis by (simp add: restore_rampz save_others)
  qed
  have E: "eind (exec v (portRESTORE_CONTEXT v a) ?u) = eind s"
  proof (cases v)
    case True
    then have "?n - (?n - 3) = 3" by (simp add: frame_size_def)
    then show ?thesis
      unfolding restore_eind using rd [of "?n - 3"] frame_size_pos [of v] True
      by (simp add: context_fields_nth_eind del: of_nat_diff)
  next
    case False
    then show ?thesis by (simp add: restore_eind save_others)
  qed
  have F: "pc (exec v (portRESTORE_CONTEXT v a) ?u) = pc s"
    by (simp add: restore_pc save_others)
  from A B C D E F show ?thesis by (intro conjI)
qed

text \<open>
  Save and restore on the concrete device.
\<close>

theorem save_restore_symmetry_witness:
  "save_layout_ok False 0x0100 example_cpu
   \<and> regs (exec False (portRESTORE_CONTEXT False 0x0100)
             (exec False (portSAVE_CONTEXT False 0x0100) example_cpu)) = regs example_cpu
   \<and> sreg (exec False (portRESTORE_CONTEXT False 0x0100)
             (exec False (portSAVE_CONTEXT False 0x0100) example_cpu)) = 0x80
   \<and> sp (exec False (portRESTORE_CONTEXT False 0x0100)
           (exec False (portSAVE_CONTEXT False 0x0100) example_cpu)) = 0x08FF"
proof -
  have "sreg example_cpu = 0x80" "sp example_cpu = 0x08FF"
    by (simp_all add: example_cpu_def)
  then show ?thesis
    using save_restore_symmetry [OF example_layout_ok] example_layout_ok by simp
qed

text \<open>
  Claim C10.  The save macro stores the stack pointer in the first two bytes of
  the control block that \<open>pxCurrentTCB\<close> points to, low byte at offset 0 and high
  byte at offset 1, and leaves \<open>pxCurrentTCB\<close> as it was.  The restore macro
  builds the stack pointer from the same two bytes, the byte at offset 0 as the
  low byte and the byte at offset 1 as the high byte, and then pops the frame.
  So a restore after a save starts from the stack pointer the save stored.
\<close>

theorem tcb_stack_pointer_field:
  assumes ok: "save_layout_ok v a s"
  shows "mem (exec v (portSAVE_CONTEXT v a) s) (current_tcb a (mem s))
           = lo_byte (sp (exec v (portSAVE_CONTEXT v a) s))
       \<and> mem (exec v (portSAVE_CONTEXT v a) s) (current_tcb a (mem s) + 1)
           = hi_byte (sp (exec v (portSAVE_CONTEXT v a) s))
       \<and> current_tcb a (mem (exec v (portSAVE_CONTEXT v a) s)) = current_tcb a (mem s)
       \<and> (\<forall>u. sp (exec v (portRESTORE_CONTEXT v a) u)
                = mk16 (mem u (current_tcb a (mem u) + 1)) (mem u (current_tcb a (mem u)))
                  + of_nat (frame_size v))
       \<and> sp (exec v (portRESTORE_CONTEXT v a) (exec v (portSAVE_CONTEXT v a) s))
           = sp (exec v (portSAVE_CONTEXT v a) s) + of_nat (frame_size v)"
proof -
  let ?t = "current_tcb a (mem s)"
  let ?u = "exec v (portSAVE_CONTEXT v a) s"
  have A: "mem ?u ?t = lo_byte (sp ?u)" "mem ?u (?t + 1) = hi_byte (sp ?u)"
    by (simp_all add: mem_after_save [OF ok] save_sp)
  from ok have ne: "?t \<noteq> a" "?t \<noteq> a + 1" "?t + 1 \<noteq> a"
    and out: "\<not> in_frame (sp s) (frame_size v) a" "\<not> in_frame (sp s) (frame_size v) (a + 1)"
    by (simp_all add: save_layout_ok_def Let_def)
  have B: "current_tcb a (mem ?u) = ?t"
    using ne out unfolding mem_after_save [OF ok]
    by (simp add: current_tcb_def [of a] pushed_mem_lookup)
  have C: "sp (exec v (portRESTORE_CONTEXT v a) u)
             = mk16 (mem u (current_tcb a (mem u) + 1)) (mem u (current_tcb a (mem u)))
               + of_nat (frame_size v)" for u
    by (simp add: restore_sp saved_sp_def current_tcb_def [of "current_tcb a (mem u)"])
  have D: "sp (exec v (portRESTORE_CONTEXT v a) ?u) = sp ?u + of_nat (frame_size v)"
    by (simp add: restore_sp saved_sp_after_save [OF ok] save_sp)
  from A B C D show ?thesis by blast
qed

text \<open>
  On the concrete device the save leaves 0x08DE in the control block at 0x0200.
\<close>

theorem tcb_stack_pointer_field_witness:
  "save_layout_ok False 0x0100 example_cpu
   \<and> mem (exec False (portSAVE_CONTEXT False 0x0100) example_cpu) 0x0200 = 0xDE
   \<and> mem (exec False (portSAVE_CONTEXT False 0x0100) example_cpu) 0x0201 = 0x08
   \<and> sp (exec False (portSAVE_CONTEXT False 0x0100) example_cpu) = 0x08DE"
proof -
  have t: "current_tcb 0x0100 (mem example_cpu) = 0x0200"
    by (simp add: example_cpu_def current_tcb_def mk16_def)
  have s: "sp (exec False (portSAVE_CONTEXT False 0x0100) example_cpu) = 0x08DE"
    by (simp add: save_sp frame_size_def example_cpu_def)
  show ?thesis
    using tcb_stack_pointer_field [OF example_layout_ok] example_layout_ok
    unfolding t s by (simp add: lo_byte_def hi_byte_def)
qed

subsection \<open>The tick source\<close>

text \<open>
  Claim C5, amended.  The Timer0 set-up reports the clock frequency divided by
  1024 times the compare quotient.  When the quotient lies between 1 and 256 (and
  the result fits \<open>TickType_t\<close>), the compare register holds the quotient minus
  one, so the reported rate is the clock frequency divided by 1024 times the
  compare value plus one.
\<close>

theorem reported_tick_rate:
  assumes "1 \<le> unat (compare_quotient cfg)" "unat (compare_quotient cfg) \<le> 256"
    and "configUSE_16_BIT_TICKS cfg \<longrightarrow>
           unat (configCPU_CLOCK_HZ cfg) div (1024 * unat (compare_quotient cfg)) < 65536"
  shows "\<exists>s'. prvSetupTimerInterrupt_TIMER0 cfg s = Some s'
           \<and> unat (OCR0A s') = unat (compare_quotient cfg) - 1
           \<and> unat (portTickRateHz s')
               = unat (configCPU_CLOCK_HZ cfg) div (1024 * (unat (OCR0A s') + 1))"
proof -
  have q: "compare_quotient cfg \<noteq> 0" using assms(1) by (auto simp add: unat_eq_0)
  have r: "configTICK_RATE_HZ cfg \<noteq> 0"
  proof
    assume "configTICK_RATE_HZ cfg = 0"
    then have "compare_quotient cfg = 0" by (simp add: compare_quotient_def)
    with q show False by simp
  qed
  have "unat (compare_quotient cfg) - 1 + 1 = unat (compare_quotient cfg)"
    using assms(1) by simp
  then show ?thesis
    by (simp add: timer0_result [OF r q] unat_reported_rate [OF assms(3)]
          unat_compare_value [OF assms(1,2)] del: mult_Suc_right)
qed

text \<open>
  The scenario of the specification: 16 MHz and 1000 Hz give compare value 14 and
  a reported rate of 1041 Hz.
\<close>

theorem reported_tick_rate_witness:
  "1 \<le> unat (compare_quotient (example_config 1000))
   \<and> unat (compare_quotient (example_config 1000)) \<le> 256
   \<and> (\<exists>s'. prvSetupTimerInterrupt_TIMER0 (example_config 1000) example_port = Some s'
          \<and> unat (OCR0A s') = 14 \<and> unat (portTickRateHz s') = 1041)"
proof -
  have a: "1 \<le> unat (compare_quotient (example_config 1000))"
    and b: "unat (compare_quotient (example_config 1000)) \<le> 256"
    by (simp_all add: example_quotient_1000)
  have c: "configUSE_16_BIT_TICKS (example_config 1000) \<longrightarrow>
      unat (configCPU_CLOCK_HZ (example_config 1000))
        div (1024 * unat (compare_quotient (example_config 1000))) < 65536"
    unfolding example_quotient_1000 by (simp add: example_config_def)
  have d: "unat (configCPU_CLOCK_HZ (example_config 1000)) = 16000000"
    by (simp add: example_config_def)
  show ?thesis
    using reported_tick_rate [OF a b c, of example_port] a b
    unfolding d example_quotient_1000 by auto
qed

text \<open>
  The formula on the compare value fails when the quotient exceeds 256: at 16 MHz and 10 Hz the
  quotient is 1562, the compare register receives its low byte less one, 25, and
  the reported rate is 10, while the formula on the compare value gives 600.
\<close>

theorem reported_rate_formula_counterexample:
  "prvSetupTimerInterrupt_TIMER0 (example_config 10) example_port \<noteq> None
   \<and> portTickRateHz (the (prvSetupTimerInterrupt_TIMER0 (example_config 10) example_port)) = 10
   \<and> OCR0A (the (prvSetupTimerInterrupt_TIMER0 (example_config 10) example_port)) = 25
   \<and> unat (configCPU_CLOCK_HZ (example_config 10))
        div (1024 * (unat (OCR0A (the (prvSetupTimerInterrupt_TIMER0 (example_config 10)
                                         example_port))) + 1)) = 600"
proof -
  have r: "configTICK_RATE_HZ (example_config 10) \<noteq> 0" by (simp add: example_config_def)
  have q: "compare_quotient (example_config 10) \<noteq> 0" by (simp add: example_quotient_10)
  show ?thesis
    unfolding timer0_result [OF r q] example_quotient_10
    by (simp add: example_config_def portCLOCK_PRESCALER_def to_TickType_t_def)
qed

text \<open>
  Claim C7, amended.  For every configuration whose compare quotient is at
  least 1, the set-up writes the low eight bits of the quotient minus one to the
  compare register (a truncation, not a clamp), so the value is representable.
  When the quotient is also at most 256 (and the rate fits \<open>TickType_t\<close>), the
  value written is the quotient minus one itself, the reported rate is
  the rate of that compare value, the clock frequency divided by 1024 times the
  compare value plus one, and it is within one step of the compare register of
  the requested rate: the requested rate is at most the rate of the compare
  value written and above the rate of the next compare value.
\<close>

theorem compare_value_and_rate_error:
  assumes "1 \<le> unat (compare_quotient cfg)"
  shows "\<exists>s'. prvSetupTimerInterrupt_TIMER0 cfg s = Some s'
           \<and> OCR0A s' = ucast ((compare_quotient cfg - 1) AND 0xff)
           \<and> unat (OCR0A s') = (unat (compare_quotient cfg) - 1) mod 256
           \<and> (unat (compare_quotient cfg) \<le> 256
                \<and> (configUSE_16_BIT_TICKS cfg \<longrightarrow>
                      unat (configCPU_CLOCK_HZ cfg) div (1024 * unat (compare_quotient cfg)) < 65536)
               \<longrightarrow>
                 unat (OCR0A s') = unat (compare_quotient cfg) - 1
               \<and> unat (portTickRateHz s')
                    = unat (configCPU_CLOCK_HZ cfg) div (1024 * (unat (OCR0A s') + 1))
               \<and> unat (configTICK_RATE_HZ cfg)
                    \<le> unat (configCPU_CLOCK_HZ cfg) div (1024 * (unat (OCR0A s') + 1))
               \<and> unat (configCPU_CLOCK_HZ cfg) div (1024 * (unat (OCR0A s') + 2))
                    < unat (configTICK_RATE_HZ cfg))"
proof -
  let ?q = "compare_quotient cfg"
  have q: "?q \<noteq> 0" using assms(1) by (auto simp add: unat_eq_0)
  have r: "configTICK_RATE_HZ cfg \<noteq> 0"
  proof
    assume "configTICK_RATE_HZ cfg = 0"
    then have "?q = 0" by (simp add: compare_quotient_def)
    with q show False by simp
  qed
  then have r': "0 < unat (configTICK_RATE_HZ cfg)" by (simp add: unat_gt_0)
  have q': "0 < unat (configCPU_CLOCK_HZ cfg) div unat (configTICK_RATE_HZ cfg) div 1024"
    using assms(1) by (simp add: unat_compare_quotient)
  have u: "unat (?q - 1) = unat ?q - 1" using q by (rule unat_minus_one)
  have m: "(0xff :: 32 word) = mask 8" by (simp add: mask_eq_exp_minus_1)
  have "unat (ucast ((?q - 1) AND mask 8) :: byte) = unat (?q - 1) mod 256"
    by (simp add: unsigned_ucast_eq unsigned_take_bit_eq take_bit_eq_mod unat_mod flip: take_bit_eq_mask)
  then have ocr: "unat (ucast ((?q - 1) AND 0xff) :: byte) = (unat ?q - 1) mod 256"
    unfolding m u .
  have rate: "unat (to_TickType_t (configUSE_16_BIT_TICKS cfg)
                (configCPU_CLOCK_HZ cfg div (portCLOCK_PRESCALER * ?q)))
           = unat (configCPU_CLOCK_HZ cfg) div (1024 * unat ?q)"
    if "configUSE_16_BIT_TICKS cfg \<longrightarrow>
          unat (configCPU_CLOCK_HZ cfg) div (1024 * unat ?q) < 65536"
    using that by (rule unat_reported_rate)
  have br: "unat (configTICK_RATE_HZ cfg) \<le> unat (configCPU_CLOCK_HZ cfg) div (1024 * unat ?q)"
    "unat (configCPU_CLOCK_HZ cfg) div (1024 * (unat ?q + 1)) < unat (configTICK_RATE_HZ cfg)"
    using quotient_brackets_rate [OF r' q'] by (simp_all add: unat_compare_quotient)
  have small: "(unat ?q - 1) mod 256 = unat ?q - 1
      \<and> unat ?q - 1 + 1 = unat ?q \<and> unat ?q - 1 + 2 = unat ?q + 1" if "unat ?q \<le> 256"
    using that assms(1) by simp
  show ?thesis
    unfolding timer0_result [OF r q]
    using ocr rate br small by (auto simp del: mult_Suc_right)
qed

text \<open>
  At 16 MHz and 100 Hz: quotient 156, compare value 155, reported rate 100; the
  next compare value would give 99.
\<close>

theorem compare_value_and_rate_error_witness:
  "1 \<le> unat (compare_quotient (example_config 100))
   \<and> unat (compare_quotient (example_config 100)) \<le> 256
   \<and> unat (configCPU_CLOCK_HZ (example_config 100))
        div (1024 * unat (compare_quotient (example_config 100))) < 65536
   \<and> (\<exists>s'. prvSetupTimerInterrupt_TIMER0 (example_config 100) example_port = Some s'
          \<and> unat (OCR0A s') = 155 \<and> unat (portTickRateHz s') = 100
          \<and> unat (configCPU_CLOCK_HZ (example_config 100)) div (1024 * (unat (OCR0A s') + 2)) = 99)"
proof -
  have a: "1 \<le> unat (compare_quotient (example_config 100))"
    and b: "unat (compare_quotient (example_config 100)) \<le> 256"
    by (simp_all add: example_quotient_100)
  have c: "unat (configCPU_CLOCK_HZ (example_config 100))
        div (1024 * unat (compare_quotient (example_config 100))) < 65536"
    unfolding example_quotient_100 by (simp add: example_config_def)
  have d: "unat (configCPU_CLOCK_HZ (example_config 100)) = 16000000"
    by (simp add: example_config_def)
  show ?thesis
    using compare_value_and_rate_error [OF a, of example_port] a b c
    unfolding d example_quotient_100 by auto
qed

text \<open>
  Two configurations outside the range.  At 16 MHz and 20000 Hz the quotient is
  zero: the set-up divides by zero and reports no rate.  At 16 MHz and 10 Hz the
  quotient is 1562: the compare register receives 25, whose rate is 600 Hz, and
  even the next compare value gives 578 Hz, far above the 10 Hz requested.
\<close>

theorem compare_value_and_rate_error_counterexample:
  "prvSetupTimerInterrupt_TIMER0 (example_config 20000) example_port = None
   \<and> prvSetupTimerInterrupt_TIMER0 (example_config 10) example_port \<noteq> None
   \<and> unat (configTICK_RATE_HZ (example_config 10)) = 10
   \<and> unat (OCR0A (the (prvSetupTimerInterrupt_TIMER0 (example_config 10) example_port))) = 25
   \<and> unat (configCPU_CLOCK_HZ (example_config 10))
        div (1024 * (unat (OCR0A (the (prvSetupTimerInterrupt_TIMER0 (example_config 10)
                                         example_port))) + 1)) = 600
   \<and> unat (configCPU_CLOCK_HZ (example_config 10))
        div (1024 * (unat (OCR0A (the (prvSetupTimerInterrupt_TIMER0 (example_config 10)
                                         example_port))) + 2)) = 578
   \<and> \<not> unat (configCPU_CLOCK_HZ (example_config 10))
          div (1024 * (unat (OCR0A (the (prvSetupTimerInterrupt_TIMER0 (example_config 10)
                                           example_port))) + 2))
        < unat (configTICK_RATE_HZ (example_config 10))"
proof -
  have none: "prvSetupTimerInterrupt_TIMER0 (example_config 20000) example_port = None"
    by (rule timer0_none) (simp add: example_quotient_20000)
  have r: "configTICK_RATE_HZ (example_config 10) \<noteq> 0" by (simp add: example_config_def)
  have q: "compare_quotient (example_config 10) \<noteq> 0" by (simp add: example_quotient_10)
  show ?thesis
    unfolding none timer0_result [OF r q] example_quotient_10
    by (simp add: example_config_def)
qed

text \<open>
  Claim C8.  For every prescale value, the watchdog set-up ends with a write to
  the watchdog control register that has WDIE set and WDE clear; this is the
  value the register keeps.
\<close>

theorem watchdog_interrupt_mode:
  "bit (WD_CONTROL_REG (prvSetupTimerInterrupt_WDTO cfg val s)) WDIE
   \<and> \<not> bit (WD_CONTROL_REG (prvSetupTimerInterrupt_WDTO cfg val s)) WDE
   \<and> last (wd_control_writes (prvSetupTimerInterrupt_WDTO cfg val s))
        = WD_CONTROL_REG (prvSetupTimerInterrupt_WDTO cfg val s)
   \<and> prvSetupTimerInterrupt (portUSE_WDTO val) cfg s = Some (prvSetupTimerInterrupt_WDTO cfg val s)"
  using wd_value_bits [of val]
  by (simp add: prvSetupTimerInterrupt_WDTO_def Let_def wdt_interrupt_enable_writes
        prvSetupTimerInterrupt_def)

text \<open>
  With the prescale value 6 the register receives 0xC6.
\<close>

theorem watchdog_interrupt_mode_witness:
  "WD_CONTROL_REG (prvSetupTimerInterrupt_WDTO (example_config 1000) 0x06 example_port) = 0xC6
   \<and> bit (0xC6 :: byte) WDIE \<and> \<not> bit (0xC6 :: byte) WDE"
proof -
  have "WD_CONTROL_REG (prvSetupTimerInterrupt_WDTO (example_config 1000) 0x06 example_port) = 0xC6"
    by (simp add: prvSetupTimerInterrupt_WDTO_def Let_def wdt_interrupt_enable_writes
          BV_def WDIF_def WDIE_def)
  then show ?thesis
    using watchdog_interrupt_mode [of "example_config 1000" "0x06" example_port] by simp
qed



subsection \<open>The tick interrupt\<close>

text \<open>
  Claim C6.  In a build without preemption the tick interrupt routine leaves the
  state \<open>xTaskIncrementTick\<close> produced, whatever that call returns: its result
  does not depend on \<open>vTaskSwitchContext\<close>.  With preemption it is a call of
  \<open>vPortYieldFromTick\<close> followed by \<open>reti\<close>.  \<open>vPortYieldFromTick\<close> saves the
  context and runs \<open>xTaskIncrementTick\<close>.  If the result is \<open>pdFALSE\<close> it
  restores and returns from the state \<open>xTaskIncrementTick\<close> left, and
  \<open>vTaskSwitchContext\<close> plays no part.  If the result differs from \<open>pdFALSE\<close> it
  restores and returns from the state \<open>vTaskSwitchContext\<close> produced from it.  The
  record of kernel calls says the same: one call, or the two calls in this order.
\<close>

theorem preemption_gating:
  "(configUSE_PREEMPTION cfg \<noteq> 1 \<longrightarrow>
      portSCHEDULER_ISR cfg isr_ret f g s
        = on_core (exec (three_byte_pc cfg) [RETI])
            ((snd (f s))\<lparr>kernel_calls := kernel_calls s @ [Call_xTaskIncrementTick]\<rparr>)
      \<and> portSCHEDULER_ISR cfg isr_ret f g s = portSCHEDULER_ISR cfg isr_ret f g' s)
   \<and> (configUSE_PREEMPTION cfg = 1 \<longrightarrow>
        portSCHEDULER_ISR cfg isr_ret f g s
          = on_core (exec (three_byte_pc cfg) [RETI])
              (vPortYieldFromTick cfg f g (on_core (exec (three_byte_pc cfg) [CALL isr_ret]) s)))
   \<and> (fst (f (context_saved cfg s)) = pdFALSE \<longrightarrow>
        vPortYieldFromTick cfg f g s
          = context_restored cfg
              ((snd (f (context_saved cfg s)))
                 \<lparr>kernel_calls := kernel_calls s @ [Call_xTaskIncrementTick]\<rparr>)
        \<and> vPortYieldFromTick cfg f g s = vPortYieldFromTick cfg f g' s)
   \<and> (fst (f (context_saved cfg s)) \<noteq> pdFALSE \<longrightarrow>
        vPortYieldFromTick cfg f g s
          = context_restored cfg
              ((g ((snd (f (context_saved cfg s)))
                     \<lparr>kernel_calls := kernel_calls s @ [Call_xTaskIncrementTick]\<rparr>))
                 \<lparr>kernel_calls :=
                     kernel_calls s @ [Call_xTaskIncrementTick, Call_vTaskSwitchContext]\<rparr>))
   \<and> kernel_calls (vPortYieldFromTick cfg f g s) =
       kernel_calls s @ Call_xTaskIncrementTick #
         (if fst (f (context_saved cfg s)) \<noteq> pdFALSE then [Call_vTaskSwitchContext] else [])"
proof (intro conjI impI)
  assume c: "configUSE_PREEMPTION cfg \<noteq> 1"
  show "portSCHEDULER_ISR cfg isr_ret f g s
        = on_core (exec (three_byte_pc cfg) [RETI])
            ((snd (f s))\<lparr>kernel_calls := kernel_calls s @ [Call_xTaskIncrementTick]\<rparr>)"
    by (rule isr_cooperative [OF c])
  show "portSCHEDULER_ISR cfg isr_ret f g s = portSCHEDULER_ISR cfg isr_ret f g' s"
    by (simp only: isr_cooperative [OF c])
next
  assume "configUSE_PREEMPTION cfg = 1"
  then show "portSCHEDULER_ISR cfg isr_ret f g s
          = on_core (exec (three_byte_pc cfg) [RETI])
              (vPortYieldFromTick cfg f g (on_core (exec (three_byte_pc cfg) [CALL isr_ret]) s))"
    by (simp add: portSCHEDULER_ISR_def del: exec.simps)
next
  assume n: "fst (f (context_saved cfg s)) = pdFALSE"
  show "vPortYieldFromTick cfg f g s
          = context_restored cfg
              ((snd (f (context_saved cfg s)))
                 \<lparr>kernel_calls := kernel_calls s @ [Call_xTaskIncrementTick]\<rparr>)"
    using n unfolding context_saved_def context_restored_def by (rule yield_from_tick_not_due)
  show "vPortYieldFromTick cfg f g s = vPortYieldFromTick cfg f g' s"
    using n unfolding context_saved_def by (simp only: yield_from_tick_not_due)
next
  assume d: "fst (f (context_saved cfg s)) \<noteq> pdFALSE"
  show "vPortYieldFromTick cfg f g s
          = context_restored cfg
              ((g ((snd (f (context_saved cfg s)))
                     \<lparr>kernel_calls := kernel_calls s @ [Call_xTaskIncrementTick]\<rparr>))
                 \<lparr>kernel_calls :=
                     kernel_calls s @ [Call_xTaskIncrementTick, Call_vTaskSwitchContext]\<rparr>)"
    using d unfolding context_saved_def context_restored_def by (rule yield_from_tick_due)
next
  show "kernel_calls (vPortYieldFromTick cfg f g s) =
       kernel_calls s @ Call_xTaskIncrementTick #
         (if fst (f (context_saved cfg s)) \<noteq> pdFALSE then [Call_vTaskSwitchContext] else [])"
    unfolding context_saved_def by (rule yield_from_tick_calls)
qed

text \<open>
  On the concrete device, with a switch function that selects a second task whose
  saved stack pointer is 0x0700.  Without preemption memory is untouched and one
  call is made.  With preemption and a tick that asks for a switch the routine
  ends on the second task's stack (0x0700 + 33 + 2); with a tick that does not,
  it ends on the first task's stack (0x08FF + 2).
\<close>

theorem preemption_gating_witness:
  "configUSE_PREEMPTION ((example_config 1000)\<lparr>configUSE_PREEMPTION := 0\<rparr>) \<noteq> 1
   \<and> kernel_calls (portSCHEDULER_ISR ((example_config 1000)\<lparr>configUSE_PREEMPTION := 0\<rparr>) 0x0040
                      example_tick_due example_switch example_port)
        = [Call_xTaskIncrementTick]
   \<and> mem (core (portSCHEDULER_ISR ((example_config 1000)\<lparr>configUSE_PREEMPTION := 0\<rparr>) 0x0040
                      example_tick_due example_switch example_port))
        = mem example_cpu
   \<and> configUSE_PREEMPTION (example_config 1000) = 1
   \<and> kernel_calls (portSCHEDULER_ISR (example_config 1000) 0x0040
                      example_tick_due example_switch example_port)
        = [Call_xTaskIncrementTick, Call_vTaskSwitchContext]
   \<and> fst (example_tick_due (context_saved (example_config 1000) example_port)) \<noteq> pdFALSE
   \<and> kernel_calls (vPortYieldFromTick (example_config 1000) example_tick_due example_switch
                      example_port)
        = [Call_xTaskIncrementTick, Call_vTaskSwitchContext]
   \<and> sp (core (vPortYieldFromTick (example_config 1000) example_tick_due example_switch
                  example_port)) = 0x0723
   \<and> fst (example_tick_not_due (context_saved (example_config 1000) example_port)) = pdFALSE
   \<and> kernel_calls (vPortYieldFromTick (example_config 1000) example_tick_not_due example_switch
                      example_port)
        = [Call_xTaskIncrementTick]
   \<and> sp (core (vPortYieldFromTick (example_config 1000) example_tick_not_due example_switch
                  example_port)) = 0x0901"
proof -
  let ?coop = "(example_config 1000)\<lparr>configUSE_PREEMPTION := 0\<rparr>"
  let ?cfg = "example_config 1000"
  have a: "configUSE_PREEMPTION ?coop \<noteq> 1" and b: "configUSE_PREEMPTION ?cfg = 1"
    by (simp_all add: example_config_def)
  have due: "fst (example_tick_due (context_saved ?cfg example_port)) \<noteq> pdFALSE"
    and not_due: "fst (example_tick_not_due (context_saved ?cfg example_port)) = pdFALSE"
    by (simp_all add: example_tick_due_def example_tick_not_due_def pdFALSE_def)
  have log: "kernel_calls example_port = []" by (simp add: example_port_def)
  note coop = preemption_gating [where cfg = ?coop and isr_ret = "0x0040"
      and f = example_tick_due and g = example_switch and g' = example_switch
      and s = example_port]
  note pre = preemption_gating [where cfg = ?cfg and isr_ret = "0x0040"
      and f = example_tick_due and g = example_switch and g' = example_switch
      and s = example_port]
  note pre_call = preemption_gating [where cfg = ?cfg and isr_ret = "0x0040"
      and f = example_tick_due and g = example_switch and g' = example_switch
      and s = "on_core (exec (three_byte_pc ?cfg) [CALL 0x0040]) example_port"]
  note idle = preemption_gating [where cfg = ?cfg and isr_ret = "0x0040"
      and f = example_tick_not_due and g = example_switch and g' = example_switch
      and s = example_port]
  have c1: "kernel_calls (portSCHEDULER_ISR ?coop 0x0040 example_tick_due example_switch
              example_port) = [Call_xTaskIncrementTick]"
    using coop a log by (simp add: on_core_def del: exec.simps)
  have c2: "mem (core (portSCHEDULER_ISR ?coop 0x0040 example_tick_due example_switch
              example_port)) = mem example_cpu"
    using coop a
    by (simp add: on_core_def example_tick_due_def example_port_def exec_instr_def
          example_config_def)
  have c3: "kernel_calls (portSCHEDULER_ISR ?cfg 0x0040 example_tick_due example_switch
              example_port) = [Call_xTaskIncrementTick, Call_vTaskSwitchContext]"
  proof -
    have e1: "portSCHEDULER_ISR ?cfg 0x0040 example_tick_due example_switch example_port
          = on_core (exec (three_byte_pc ?cfg) [RETI])
              (vPortYieldFromTick ?cfg example_tick_due example_switch
                (on_core (exec (three_byte_pc ?cfg) [CALL 0x0040]) example_port))"
      using pre b by blast
    have e2: "kernel_calls (vPortYieldFromTick ?cfg example_tick_due example_switch
                (on_core (exec (three_byte_pc ?cfg) [CALL 0x0040]) example_port))
          = kernel_calls (on_core (exec (three_byte_pc ?cfg) [CALL 0x0040]) example_port)
              @ Call_xTaskIncrementTick #
              (if fst (example_tick_due (context_saved ?cfg
                         (on_core (exec (three_byte_pc ?cfg) [CALL 0x0040]) example_port)))
                    \<noteq> pdFALSE
               then [Call_vTaskSwitchContext] else [])"
      using pre_call by blast
    show ?thesis
      unfolding e1 kernel_calls_on_core e2
      by (simp add: log example_tick_due_def pdFALSE_def del: exec.simps)
  qed
  have c4: "kernel_calls (vPortYieldFromTick ?cfg example_tick_due example_switch example_port)
              = [Call_xTaskIncrementTick, Call_vTaskSwitchContext]"
  proof -
    have "kernel_calls (vPortYieldFromTick ?cfg example_tick_due example_switch example_port)
          = kernel_calls example_port @ Call_xTaskIncrementTick #
              (if fst (example_tick_due (context_saved ?cfg example_port)) \<noteq> pdFALSE
               then [Call_vTaskSwitchContext] else [])"
      using pre by blast
    then show ?thesis using due log by simp
  qed
  have c5: "sp (core (vPortYieldFromTick ?cfg example_tick_due example_switch example_port))
              = 0x0723"
  proof -
    have "vPortYieldFromTick ?cfg example_tick_due example_switch example_port
          = context_restored ?cfg
              ((example_switch ((snd (example_tick_due (context_saved ?cfg example_port)))
                     \<lparr>kernel_calls := kernel_calls example_port @ [Call_xTaskIncrementTick]\<rparr>))
                 \<lparr>kernel_calls := kernel_calls example_port
                     @ [Call_xTaskIncrementTick, Call_vTaskSwitchContext]\<rparr>)"
      using pre due by blast
    then show ?thesis
      by (simp add: sp_context_restored example_cfg_fields example_switch_def on_core_def
            saved_sp_def current_tcb_def mk16_def frame_size_def pc_bytes_def)
  qed
  have c6: "kernel_calls (vPortYieldFromTick ?cfg example_tick_not_due example_switch
              example_port) = [Call_xTaskIncrementTick]"
  proof -
    have "kernel_calls (vPortYieldFromTick ?cfg example_tick_not_due example_switch example_port)
          = kernel_calls example_port @ Call_xTaskIncrementTick #
              (if fst (example_tick_not_due (context_saved ?cfg example_port)) \<noteq> pdFALSE
               then [Call_vTaskSwitchContext] else [])"
      using idle by blast
    then show ?thesis using not_due log by simp
  qed
  have c7: "sp (core (vPortYieldFromTick ?cfg example_tick_not_due example_switch example_port))
              = 0x0901"
  proof -
    have "vPortYieldFromTick ?cfg example_tick_not_due example_switch example_port
          = context_restored ?cfg
              ((snd (example_tick_not_due (context_saved ?cfg example_port)))
                 \<lparr>kernel_calls := kernel_calls example_port @ [Call_xTaskIncrementTick]\<rparr>)"
      using idle not_due by blast
    moreover have "sp example_cpu = 0x08FF" by (simp add: example_cpu_def)
    ultimately show ?thesis
      by (simp add: sp_context_restored example_cfg_fields example_tick_not_due_def
            example_saved_core saved_sp_after_save [OF example_layout_ok]
            frame_size_def pc_bytes_def)
  qed
  from a c1 c2 b c3 due c4 c5 not_due c6 c7 show ?thesis by (intro conjI)
qed

end
